theory Spec2Isabelle
  imports Main
begin

section \<open>Data model\<close>

text \<open>
  Identifiers (guild, user, thread, channel) are Python integers; timestamps are the
  values of \<^verbatim>\<open>datetime.utcnow()\<close>, taken from the environment.
\<close>

text \<open>One row of the \<^verbatim>\<open>whispers\<close> table, with the columns the SQL statements of
  \<^verbatim>\<open>cogs/whisper.py\<close> name. A column an INSERT does not list is NULL.\<close>

record whisper_row =
  guild_id :: int
  user_id :: int
  thread_id :: int
  created_at :: nat
  closed_at :: "nat option"
  is_open :: bool

text \<open>The permission bits of \<^verbatim>\<open>Member.guild_permissions\<close> that the cogs read.\<close>

record permissions =
  administrator :: bool
  manage_guild :: bool
  kick_members :: bool
  ban_members :: bool

text \<open>\<^verbatim>\<open>interaction.user\<close> is a \<^verbatim>\<open>discord.Member\<close> (with guild permissions) or a plain
  \<^verbatim>\<open>discord.User\<close> (without).\<close>

datatype user = Member int permissions | User int

fun uid :: "user \<Rightarrow> int" where
  "uid (Member n p) = n"
| "uid (User n) = n"

datatype channel = Thread int | TextChannel int

record interaction =
  guild :: "int option"
  user :: user
  channel :: channel
  reason :: "string option"

text \<open>The exceptions the handlers tell apart. \<^verbatim>\<open>Forbidden\<close> and \<^verbatim>\<open>NotFound\<close> are
  subclasses of \<^verbatim>\<open>HTTPException\<close> (the constructor \<open>HTTPException\<close> stands for its other
  instances); \<^verbatim>\<open>MissingPermissions\<close> is what a failed \<^verbatim>\<open>has_permissions\<close> check raises;
  all are subclasses of \<^verbatim>\<open>Exception\<close>.\<close>

datatype exn =
  Forbidden | NotFound | HTTPException | AttributeError | MissingPermissions | OtherError

text \<open>The moderation commands whose replies differ by the name of the command only.\<close>

datatype mod_command =
  BanCmd | UnbanCmd | MuteCmd | UnmuteCmd | WarnCmd | PurgeCmd | LockCmd | UnlockCmd

text \<open>The messages a handler sends back to the invoking user.\<close>

datatype reply =
    ServerOnly
  | NotEnabled
  | AlreadyActive int
  | NoChannel
  | CreateFailed
  | Created int
  | CreateError
  | ThreadOnly
  | NotWhisperThread
  | NoPermission
  | Closed
  | CloseError
  | Settings bool "int option"
  | SettingsError
  | ModNoPermission
  | BotCannotKick
  | RoleHierarchy
  | Kicked bool
  | KickForbidden
  | UnexpectedError
  | BotLacks mod_command
  | Hierarchy mod_command
  | Done mod_command bool
  | ForbiddenReply mod_command
  | NotBanned
  | BadDuration
  | NotTimedOut
  | BadLimit
  | TextChannelOnly mod_command
  | WarningList
  | ModlogList
  | ListNoPermission
  | NoActiveWhispers
  | WhisperList
  | ListError
  | LogsHelp
  | LogMissingPerms
  | LogChannelSet
  | LogError

text \<open>Every awaited call on an external collaborator, by call site. \<open>Send r\<close> is the
  \<^verbatim>\<open>interaction.response.send_message\<close> or \<^verbatim>\<open>interaction.followup.send\<close> that
  delivers the reply \<open>r\<close>.\<close>

datatype call =
    Send reply
  | Defer
  | ConfigGetEnabled
  | SetupGetChannel
  | SetupGetEnabled
  | CreateTextChannel
  | ConfigSetChannel
  | CreateThread
  | ThreadSend
  | DbInsert
  | DbFetchOne
  | ChannelSend
  | DbUpdate
  | ThreadEdit
  | DbFetchAll int
  | SettingsSetEnabled
  | SettingsSetChannel
  | SettingsGetEnabled
  | SettingsGetChannel
  | ModConfigGet
  | UserSendDM
  | MemberKick
  | DbLogAction
  | MemberBan
  | FetchBan
  | GuildUnban
  | MemberTimeout
  | GetModLogs
  | RenderLogs
  | ChannelPurge
  | SetPermissions
  | DbFetchList
  | RenderList
  | UpdateGuildData
  | TestSend

text \<open>What the outside world does during one handler run: which calls raise, the clock,
  and the identifiers the platform gives to a new thread and a new channel.\<close>

record env =
  raises :: "call \<Rightarrow> exn option"
  now :: nat
  new_thread :: int
  new_channel :: int

text \<open>The effects of a handler, in the order they happen: platform calls, store writes
  and writes to the \<^verbatim>\<open>_active_whispers\<close> cache.\<close>

datatype effect =
    ChannelCreated int int
  | ThreadCreated int int int
  | OpeningPosted int int string
  | RowInserted whisper_row
  | RegistrySet int int int
  | ClosingPosted int int string
  | RowsClosed int int nat
  | RegistryRemoved int int
  | ThreadArchivedLocked int
  | DMSent int string string
  | MemberKicked int
  | ActionLogged int int string string int

record bot_state =
  whispers :: "whisper_row list"
  active_whispers :: "int \<rightharpoonup> (int \<rightharpoonup> int)"
  cfg_whisper_enabled :: "int \<rightharpoonup> bool"
  cfg_whisper_channel :: "int \<rightharpoonup> int"
  cfg_moderation_enabled :: "int \<rightharpoonup> bool"
  guild_channels :: "(int \<times> int) list"
  effects :: "effect list"

section \<open>The collaborators that are not part of the cogs\<close>

text \<open>Modelled from the spec: \<^verbatim>\<open>utils/config.py\<close> (ConfigManager) is missing. Section 9
  of the specification gives its interface, \<^verbatim>\<open>get(server, key, default)\<close> and
  \<^verbatim>\<open>set(server, key, value)\<close>, a key/value collaborator per server: a stored value is
  returned, the default otherwise.\<close>

definition config_get :: "(int \<rightharpoonup> 'a) \<Rightarrow> int \<Rightarrow> 'a \<Rightarrow> 'a" where
  "config_get m g d = (case m g of None \<Rightarrow> d | Some v \<Rightarrow> v)"

text \<open>Modelled from the spec: \<^verbatim>\<open>utils/db_manager.py\<close> (DBManager) is missing. Section 6
  names the store operations: insert-one, update-set-fields-by-key, select-one-by-key and
  select-all-by-guild-and-open-flag. Each follows the SQL text that the cog passes.\<close>

definition select_open_thread :: "whisper_row list \<Rightarrow> int \<Rightarrow> int \<Rightarrow> whisper_row option" where
  "select_open_thread rows g t =
     find (\<lambda>r. guild_id r = g \<and> thread_id r = t \<and> is_open r) rows"

definition select_open_guild :: "whisper_row list \<Rightarrow> int \<Rightarrow> whisper_row list" where
  "select_open_guild rows g = filter (\<lambda>r. guild_id r = g \<and> is_open r) rows"

definition insert_open :: "whisper_row list \<Rightarrow> int \<Rightarrow> int \<Rightarrow> int \<Rightarrow> nat \<Rightarrow> whisper_row list" where
  "insert_open rows g u t ts =
     rows @ [\<lparr>guild_id = g, user_id = u, thread_id = t, created_at = ts,
              closed_at = None, is_open = True\<rparr>]"

definition update_closed :: "whisper_row list \<Rightarrow> int \<Rightarrow> int \<Rightarrow> nat \<Rightarrow> whisper_row list" where
  "update_closed rows g t ts =
     map (\<lambda>r. if guild_id r = g \<and> thread_id r = t
               then r\<lparr>is_open := False, closed_at := Some ts\<rparr> else r) rows"

section \<open>The whisper cog\<close>

definition log_effect :: "effect \<Rightarrow> bot_state \<Rightarrow> bot_state" where
  "log_effect x s = s\<lparr>effects := effects s @ [x]\<rparr>"

text \<open>Sending a reply: the call raises or the reply is delivered.\<close>

definition send :: "env \<Rightarrow> reply \<Rightarrow> exn + reply" where
  "send e r = (case raises e (Send r) of Some x \<Rightarrow> Inl x | None \<Rightarrow> Inr r)"

text \<open>\<^verbatim>\<open>reason or "No reason provided"\<close>: None and the empty string are both falsy.\<close>

definition reason_text :: "string option \<Rightarrow> string" where
  "reason_text r = (case r of None \<Rightarrow> ''No reason provided''
                    | Some t \<Rightarrow> if t = [] then ''No reason provided'' else t)"

text \<open>The lookup in the two-level dict \<^verbatim>\<open>_active_whispers\<close>. The source tests
  \<^verbatim>\<open>(d := cache.get(guild)) and user in d\<close>; a dict that holds the key is not empty, so
  the truth test of \<open>d\<close> only excludes the missing guild.\<close>

definition lookup :: "bot_state \<Rightarrow> int \<Rightarrow> int \<Rightarrow> int option" where
  "lookup s g u = (case active_whispers s g of None \<Rightarrow> None | Some d \<Rightarrow> d u)"

text \<open>\<^verbatim>\<open>_setup_whisper_channel\<close>: the configured channel when it still exists, a new
  channel otherwise; every exception is logged and gives None.\<close>

definition setup_whisper_channel :: "env \<Rightarrow> int \<Rightarrow> bot_state \<Rightarrow> int option \<times> bot_state" where
  "setup_whisper_channel e g s =
     (case raises e SetupGetChannel of Some x \<Rightarrow> (None, s) | None \<Rightarrow>
      (case raises e SetupGetEnabled of Some x \<Rightarrow> (None, s) | None \<Rightarrow>
       (case (case cfg_whisper_channel s g of None \<Rightarrow> None
              | Some c \<Rightarrow> if (g, c) \<in> set (guild_channels s) then Some c else None) of
          Some c \<Rightarrow> (Some c, s)
        | None \<Rightarrow>
          (case raises e CreateTextChannel of Some x \<Rightarrow> (None, s) | None \<Rightarrow>
           (let c = new_channel e;
                s1 = log_effect (ChannelCreated g c)
                       (s\<lparr>guild_channels := (g, c) # guild_channels s\<rparr>)
            in (case raises e ConfigSetChannel of Some x \<Rightarrow> (None, s1) | None \<Rightarrow>
                (Some c, s1\<lparr>cfg_whisper_channel := (cfg_whisper_channel s1)(g \<mapsto> c)\<rparr>)))))))"

text \<open>\<^verbatim>\<open>_create_whisper_thread\<close>: create the thread, post the opening message, insert the
  row, then write the cache; every exception is logged and gives None.\<close>

definition create_whisper_thread ::
    "env \<Rightarrow> int \<Rightarrow> int \<Rightarrow> int \<Rightarrow> string option \<Rightarrow> bot_state \<Rightarrow> int option \<times> bot_state" where
  "create_whisper_thread e g c u rs s =
     (case raises e CreateThread of Some x \<Rightarrow> (None, s) | None \<Rightarrow>
      (let t = new_thread e;
           s1 = log_effect (ThreadCreated g c t) s
       in (case raises e ThreadSend of Some x \<Rightarrow> (None, s1) | None \<Rightarrow>
           (let s2 = log_effect (OpeningPosted t u (reason_text rs)) s1
            in (case raises e DbInsert of Some x \<Rightarrow> (None, s2) | None \<Rightarrow>
                (let s3 = log_effect
                            (RowInserted \<lparr>guild_id = g, user_id = u, thread_id = t,
                               created_at = now e, closed_at = None, is_open = True\<rparr>)
                            (s2\<lparr>whispers := insert_open (whispers s2) g u t (now e)\<rparr>);
                     d = (case active_whispers s3 g of None \<Rightarrow> Map.empty | Some d0 \<Rightarrow> d0);
                     s4 = log_effect (RegistrySet g u t)
                            (s3\<lparr>active_whispers := (active_whispers s3)(g \<mapsto> d(u \<mapsto> t))\<rparr>)
                 in (Some t, s4)))))))"

text \<open>The \<^verbatim>\<open>try\<close> block of \<^verbatim>\<open>create_whisper\<close>; \<open>Inl\<close> is an exception raised in it.\<close>

definition create_whisper_try :: "env \<Rightarrow> interaction \<Rightarrow> int \<Rightarrow> bot_state \<Rightarrow> (exn + reply) \<times> bot_state" where
  "create_whisper_try e i g s =
     (case raises e ConfigGetEnabled of Some x \<Rightarrow> (Inl x, s) | None \<Rightarrow>
      if \<not> config_get (cfg_whisper_enabled s) g True then (send e NotEnabled, s)
      else (case lookup s g (uid (user i)) of
              Some t \<Rightarrow> (send e (AlreadyActive t), s)
            | None \<Rightarrow>
              (case raises e Defer of Some x \<Rightarrow> (Inl x, s) | None \<Rightarrow>
               (case setup_whisper_channel e g s of
                  (None, s1) \<Rightarrow> (send e NoChannel, s1)
                | (Some c, s1) \<Rightarrow>
                  (case create_whisper_thread e g c (uid (user i)) (reason i) s1 of
                     (None, s2) \<Rightarrow> (send e CreateFailed, s2)
                   | (Some t, s2) \<Rightarrow> (send e (Created t), s2))))))"

text \<open>\<^verbatim>\<open>create_whisper\<close>: the guild test, then the \<^verbatim>\<open>try\<close> block; an exception of the
  block is answered with the error reply. \<open>Inl\<close> is an exception that leaves the handler.\<close>

definition create_whisper :: "env \<Rightarrow> interaction \<Rightarrow> bot_state \<Rightarrow> (exn + reply) \<times> bot_state" where
  "create_whisper e i s =
     (case guild i of None \<Rightarrow> (send e ServerOnly, s)
      | Some g \<Rightarrow>
        (case create_whisper_try e i g s of
           (Inl x, s1) \<Rightarrow> (send e CreateError, s1)
         | (Inr r, s1) \<Rightarrow> (Inr r, s1)))"

text \<open>The \<^verbatim>\<open>try\<close> block of \<^verbatim>\<open>close_whisper\<close>.\<close>

definition close_whisper_try :: "env \<Rightarrow> interaction \<Rightarrow> int \<Rightarrow> int \<Rightarrow> bot_state \<Rightarrow> (exn + reply) \<times> bot_state" where
  "close_whisper_try e i g t s =
     (case raises e DbFetchOne of Some x \<Rightarrow> (Inl x, s) | None \<Rightarrow>
      (case select_open_thread (whispers s) g t of
         None \<Rightarrow> (send e NotWhisperThread, s)
       | Some w \<Rightarrow>
         (case user i of
            User n \<Rightarrow> (Inl AttributeError, s)
          | Member n p \<Rightarrow>
            if \<not> (administrator p \<or> n = user_id w) then (send e NoPermission, s)
            else
              (case raises e ChannelSend of Some x \<Rightarrow> (Inl x, s) | None \<Rightarrow>
               (let s1 = log_effect (ClosingPosted t n (reason_text (reason i))) s
                in (case raises e DbUpdate of Some x \<Rightarrow> (Inl x, s1) | None \<Rightarrow>
                    (let s2 = log_effect (RowsClosed g t (now e))
                                (s1\<lparr>whispers := update_closed (whispers s1) g t (now e)\<rparr>);
                         s3 = (case active_whispers s2 g of None \<Rightarrow> s2
                               | Some d \<Rightarrow>
                                 log_effect (RegistryRemoved g (user_id w))
                                   (s2\<lparr>active_whispers :=
                                         (active_whispers s2)(g \<mapsto> d(user_id w := None))\<rparr>))
                     in (case raises e ThreadEdit of Some x \<Rightarrow> (Inl x, s3) | None \<Rightarrow>
                         (send e Closed, log_effect (ThreadArchivedLocked t) s3)))))))))"

text \<open>\<^verbatim>\<open>close_whisper\<close>: outside a guild or outside a thread the command is refused before
  the \<^verbatim>\<open>try\<close> block; an exception of the block is answered with the error reply.\<close>

definition close_whisper :: "env \<Rightarrow> interaction \<Rightarrow> bot_state \<Rightarrow> (exn + reply) \<times> bot_state" where
  "close_whisper e i s =
     (case (guild i, channel i) of
        (Some g, Thread t) \<Rightarrow>
          (case close_whisper_try e i g t s of
             (Inl x, s1) \<Rightarrow> (send e CloseError, s1)
           | (Inr r, s1) \<Rightarrow> (Inr r, s1))
      | _ \<Rightarrow> (send e ThreadOnly, s))"

text \<open>The dict comprehension \<^verbatim>\<open>{w['user_id']: w['thread_id'] for w in whispers}\<close>: a
  later row replaces an earlier one with the same user.\<close>

definition dict_of :: "whisper_row list \<Rightarrow> (int \<rightharpoonup> int)" where
  "dict_of ws = fold (\<lambda>w d. d(user_id w \<mapsto> thread_id w)) ws Map.empty"

text \<open>The body of the loop of \<^verbatim>\<open>cog_load\<close> for one guild: read the open rows and, when
  there are any, replace the guild's dict; an exception is logged and the guild is
  skipped.\<close>

definition load_guild :: "env \<Rightarrow> int \<Rightarrow> bot_state \<Rightarrow> bot_state" where
  "load_guild e g s =
     (case raises e (DbFetchAll g) of Some x \<Rightarrow> s
      | None \<Rightarrow>
        (let ws = select_open_guild (whispers s) g
         in if ws = [] then s
            else s\<lparr>active_whispers := (active_whispers s)(g \<mapsto> dict_of ws)\<rparr>))"

text \<open>\<^verbatim>\<open>cog_load\<close>: the loop over \<^verbatim>\<open>bot.guilds\<close>. Nothing clears the cache before.\<close>

fun cog_load :: "env \<Rightarrow> int list \<Rightarrow> bot_state \<Rightarrow> bot_state" where
  "cog_load e [] s = s"
| "cog_load e (g # gs) s = cog_load e gs (load_guild e g s)"

text \<open>The \<^verbatim>\<open>try\<close> block of \<^verbatim>\<open>setup_whispers\<close>: write the options that were given, read
  the settings back, reply, and set the channel up when the feature was switched on and no
  channel is configured.\<close>

definition setup_whispers_try ::
    "env \<Rightarrow> int \<Rightarrow> bool option \<Rightarrow> int option \<Rightarrow> bot_state \<Rightarrow> (exn + reply) \<times> bot_state" where
  "setup_whispers_try e g en ch s =
     (case (if en = None then None else raises e SettingsSetEnabled) of
        Some x \<Rightarrow> (Inl x, s)
      | None \<Rightarrow>
        (let s1 = (case en of None \<Rightarrow> s
                   | Some b \<Rightarrow> s\<lparr>cfg_whisper_enabled := (cfg_whisper_enabled s)(g \<mapsto> b)\<rparr>)
         in (case (if ch = None then None else raises e SettingsSetChannel) of
               Some x \<Rightarrow> (Inl x, s1)
             | None \<Rightarrow>
               (let s2 = (case ch of None \<Rightarrow> s1
                          | Some c \<Rightarrow> s1\<lparr>cfg_whisper_channel := (cfg_whisper_channel s1)(g \<mapsto> c)\<rparr>)
                in (case raises e SettingsGetEnabled of Some x \<Rightarrow> (Inl x, s2) | None \<Rightarrow>
                    (case raises e SettingsGetChannel of Some x \<Rightarrow> (Inl x, s2) | None \<Rightarrow>
                     (let we = config_get (cfg_whisper_enabled s2) g True;
                          wc = cfg_whisper_channel s2 g
                      in (case raises e (Send (Settings we wc)) of
                            Some x \<Rightarrow> (Inl x, s2)
                          | None \<Rightarrow>
                            if en = Some True \<and> wc = None
                            then (Inr (Settings we wc), snd (setup_whisper_channel e g s2))
                            else (Inr (Settings we wc), s2)))))))))"

definition setup_whispers ::
    "env \<Rightarrow> interaction \<Rightarrow> bool option \<Rightarrow> int option \<Rightarrow> bot_state \<Rightarrow> (exn + reply) \<times> bot_state" where
  "setup_whispers e i en ch s =
     (case guild i of None \<Rightarrow> (send e ServerOnly, s)
      | Some g \<Rightarrow>
        (case setup_whispers_try e g en ch s of
           (Inl x, s1) \<Rightarrow> (send e SettingsError, s1)
         | (Inr r, s1) \<Rightarrow> (Inr r, s1)))"

section \<open>The moderation cog\<close>

text \<open>\<^verbatim>\<open>_check_mod_permissions\<close>: outside a guild, or for a plain user, False; an
  administrator or a holder of manage-guild passes before the configuration is read.\<close>

definition check_mod_permissions :: "env \<Rightarrow> interaction \<Rightarrow> bot_state \<Rightarrow> exn + bool" where
  "check_mod_permissions e i s =
     (case guild i of None \<Rightarrow> Inr False
      | Some g \<Rightarrow>
        (case user i of
           User n \<Rightarrow> Inr False
         | Member n p \<Rightarrow>
           if administrator p \<or> manage_guild p then Inr True
           else (case raises e ModConfigGet of Some x \<Rightarrow> Inl x | None \<Rightarrow>
                 if \<not> config_get (cfg_moderation_enabled s) g True then Inr False
                 else Inr (kick_members p \<or> ban_members p))))"

text \<open>The arguments of \<^verbatim>\<open>kick\<close> and what it reads of the guild: the target member and
  its top role, the bot's own kick permission and top role.\<close>

record kick_args =
  target :: int
  target_top_role :: int
  bot_kick_members :: bool
  bot_top_role :: int
  kick_reason :: string

text \<open>\<^verbatim>\<open>_send_user_dm\<close> catches \<^verbatim>\<open>Forbidden\<close> and \<^verbatim>\<open>HTTPException\<close> (with its
  subclass \<^verbatim>\<open>NotFound\<close>) only.\<close>

definition send_user_dm :: "env \<Rightarrow> int \<Rightarrow> string \<Rightarrow> string \<Rightarrow> bot_state \<Rightarrow> (exn + bool) \<times> bot_state" where
  "send_user_dm e u action rs s =
     (case raises e UserSendDM of
        None \<Rightarrow> (Inr True, log_effect (DMSent u action rs) s)
      | Some Forbidden \<Rightarrow> (Inr False, s)
      | Some NotFound \<Rightarrow> (Inr False, s)
      | Some HTTPException \<Rightarrow> (Inr False, s)
      | Some x \<Rightarrow> (Inl x, s))"

text \<open>The \<^verbatim>\<open>try\<close> block of \<^verbatim>\<open>kick\<close>.\<close>

definition kick_try :: "env \<Rightarrow> interaction \<Rightarrow> int \<Rightarrow> kick_args \<Rightarrow> bot_state \<Rightarrow> (exn + reply) \<times> bot_state" where
  "kick_try e i g a s =
     (case send_user_dm e (target a) ''kick'' (kick_reason a) s of
        (Inl x, s1) \<Rightarrow> (Inl x, s1)
      | (Inr dm_sent, s1) \<Rightarrow>
        (case raises e MemberKick of Some x \<Rightarrow> (Inl x, s1) | None \<Rightarrow>
         (let s2 = log_effect (MemberKicked (target a)) s1
          in (case raises e DbLogAction of Some x \<Rightarrow> (Inl x, s2) | None \<Rightarrow>
              (send e (Kicked dm_sent),
               log_effect (ActionLogged g (target a) ''KICK'' (kick_reason a) (uid (user i))) s2)))))"

text \<open>\<^verbatim>\<open>kick\<close>: the permission check and the two tests on the bot come before the
  \<^verbatim>\<open>try\<close> block; the block's \<^verbatim>\<open>Forbidden\<close> and every other exception get a reply.
  \<^verbatim>\<open>interaction.guild.me\<close> is read before the block, which would raise outside a guild
  (the permission check has refused that case already).\<close>

definition kick :: "env \<Rightarrow> interaction \<Rightarrow> kick_args \<Rightarrow> bot_state \<Rightarrow> (exn + reply) \<times> bot_state" where
  "kick e i a s =
     (case check_mod_permissions e i s of
        Inl x \<Rightarrow> (Inl x, s)
      | Inr False \<Rightarrow> (send e ModNoPermission, s)
      | Inr True \<Rightarrow>
        (case guild i of
           None \<Rightarrow> (Inl AttributeError, s)
         | Some g \<Rightarrow>
           if \<not> bot_kick_members a then (send e BotCannotKick, s)
           else if target_top_role a \<ge> bot_top_role a then (send e RoleHierarchy, s)
           else (case kick_try e i g a s of
                   (Inl Forbidden, s1) \<Rightarrow> (send e KickForbidden, s1)
                 | (Inl x, s1) \<Rightarrow> (send e UnexpectedError, s1)
                 | (Inr r, s1) \<Rightarrow> (Inr r, s1))))"

section \<open>The other command handlers\<close>

text \<open>
  The handlers below are modelled for what they answer and what they let out: every
  awaited call in its order, every early return, every \<^verbatim>\<open>except\<close> clause. Their effects
  on the platform and the store are not recorded.
\<close>

text \<open>One awaited call inside a \<^verbatim>\<open>try\<close> block: it raises, or the block goes on.\<close>

definition attempt :: "env \<Rightarrow> call \<Rightarrow> exn + 'a \<Rightarrow> exn + 'a" where
  "attempt e k rest = (case raises e k of Some x \<Rightarrow> Inl x | None \<Rightarrow> rest)"

text \<open>A \<^verbatim>\<open>try\<close> block with the clauses \<^verbatim>\<open>except discord.Forbidden\<close> and
  \<^verbatim>\<open>except Exception\<close>, each of which sends a reply.\<close>

definition answered :: "env \<Rightarrow> mod_command \<Rightarrow> exn + reply \<Rightarrow> exn + reply" where
  "answered e c body =
     (case body of
        Inl Forbidden \<Rightarrow> send e (ForbiddenReply c)
      | Inl x \<Rightarrow> send e UnexpectedError
      | Inr r \<Rightarrow> Inr r)"

text \<open>A \<^verbatim>\<open>try\<close> block with the single clause \<^verbatim>\<open>except Exception\<close>, which sends a
  reply.\<close>

definition answered_any :: "env \<Rightarrow> reply \<Rightarrow> exn + reply \<Rightarrow> exn + reply" where
  "answered_any e r body = (case body of Inl x \<Rightarrow> send e r | Inr r' \<Rightarrow> Inr r')"

text \<open>The first statement of every moderation command, before its \<^verbatim>\<open>try\<close> block: the
  permission check, and the refusal when it gives False.\<close>

definition moderated :: "env \<Rightarrow> interaction \<Rightarrow> bot_state \<Rightarrow> exn + reply \<Rightarrow> exn + reply" where
  "moderated e i s rest =
     (case check_mod_permissions e i s of
        Inl x \<Rightarrow> Inl x
      | Inr False \<Rightarrow> send e ModNoPermission
      | Inr True \<Rightarrow> rest)"

text \<open>The arguments of the moderation commands and what they read of the guild: the
  target and its top role, the bot's top role and permissions, the duration of a mute,
  whether the target is timed out, the limit of a purge, the optional channel of a lock.\<close>

record mod_args =
  member_id :: int
  member_top_role :: int
  me_top_role :: int
  me_ban_members :: bool
  me_moderate_members :: bool
  me_manage_messages :: bool
  me_manage_channels :: bool
  duration :: int
  is_timed_out :: bool
  limit :: int
  channel_option :: "channel option"
  mod_reason :: string

text \<open>\<^verbatim>\<open>ban\<close>.\<close>

definition ban :: "env \<Rightarrow> interaction \<Rightarrow> mod_args \<Rightarrow> bot_state \<Rightarrow> exn + reply" where
  "ban e i a s =
     moderated e i s
       (case guild i of
          None \<Rightarrow> Inl AttributeError
        | Some g \<Rightarrow>
          if \<not> me_ban_members a then send e (BotLacks BanCmd)
          else if member_top_role a \<ge> me_top_role a then send e (Hierarchy BanCmd)
          else answered e BanCmd
                 (case fst (send_user_dm e (member_id a) ''ban'' (mod_reason a) s) of
                    Inl x \<Rightarrow> Inl x
                  | Inr dm_sent \<Rightarrow>
                    attempt e MemberBan
                      (attempt e DbLogAction (send e (Done BanCmd dm_sent)))))"

text \<open>\<^verbatim>\<open>unban\<close>: the inner \<^verbatim>\<open>try\<close> answers \<^verbatim>\<open>NotFound\<close> of the ban lookup from inside
  the outer block.\<close>

definition unban :: "env \<Rightarrow> interaction \<Rightarrow> mod_args \<Rightarrow> bot_state \<Rightarrow> exn + reply" where
  "unban e i a s =
     moderated e i s
       (case guild i of
          None \<Rightarrow> Inl AttributeError
        | Some g \<Rightarrow>
          if \<not> me_ban_members a then send e (BotLacks UnbanCmd)
          else answered e UnbanCmd
                 (case raises e FetchBan of
                    Some NotFound \<Rightarrow> send e NotBanned
                  | Some x \<Rightarrow> Inl x
                  | None \<Rightarrow>
                    attempt e GuildUnban
                      (attempt e DbLogAction (send e (Done UnbanCmd False)))))"

text \<open>\<^verbatim>\<open>mute\<close>.\<close>

definition mute :: "env \<Rightarrow> interaction \<Rightarrow> mod_args \<Rightarrow> bot_state \<Rightarrow> exn + reply" where
  "mute e i a s =
     moderated e i s
       (case guild i of
          None \<Rightarrow> Inl AttributeError
        | Some g \<Rightarrow>
          if \<not> me_moderate_members a then send e (BotLacks MuteCmd)
          else if duration a < 1 \<or> duration a > 40320 then send e BadDuration
          else if member_top_role a \<ge> me_top_role a then send e (Hierarchy MuteCmd)
          else answered e MuteCmd
                 (attempt e MemberTimeout
                    (attempt e DbLogAction (send e (Done MuteCmd False)))))"

text \<open>\<^verbatim>\<open>unmute\<close>.\<close>

definition unmute :: "env \<Rightarrow> interaction \<Rightarrow> mod_args \<Rightarrow> bot_state \<Rightarrow> exn + reply" where
  "unmute e i a s =
     moderated e i s
       (case guild i of
          None \<Rightarrow> Inl AttributeError
        | Some g \<Rightarrow>
          if \<not> me_moderate_members a then send e (BotLacks UnmuteCmd)
          else if \<not> is_timed_out a then send e NotTimedOut
          else answered e UnmuteCmd
                 (attempt e MemberTimeout
                    (attempt e DbLogAction (send e (Done UnmuteCmd False)))))"

text \<open>\<^verbatim>\<open>warn\<close>: the guild is first read inside the \<^verbatim>\<open>try\<close> block.\<close>

definition warn :: "env \<Rightarrow> interaction \<Rightarrow> mod_args \<Rightarrow> bot_state \<Rightarrow> exn + reply" where
  "warn e i a s =
     moderated e i s
       (answered_any e UnexpectedError
          (case guild i of
             None \<Rightarrow> Inl AttributeError
           | Some g \<Rightarrow>
             (case fst (send_user_dm e (member_id a) ''warning'' (mod_reason a) s) of
                Inl x \<Rightarrow> Inl x
              | Inr dm_sent \<Rightarrow> attempt e DbLogAction (send e (Done WarnCmd dm_sent)))))"

text \<open>\<^verbatim>\<open>warnings\<close> and \<^verbatim>\<open>modlogs\<close>: read the log rows, render them (the reads of the
  row fields can raise), reply.\<close>

definition warnings :: "env \<Rightarrow> interaction \<Rightarrow> mod_args \<Rightarrow> bot_state \<Rightarrow> exn + reply" where
  "warnings e i a s =
     moderated e i s
       (answered_any e UnexpectedError
          (case guild i of
             None \<Rightarrow> Inl AttributeError
           | Some g \<Rightarrow> attempt e GetModLogs (attempt e RenderLogs (send e WarningList))))"

definition modlogs :: "env \<Rightarrow> interaction \<Rightarrow> mod_args \<Rightarrow> bot_state \<Rightarrow> exn + reply" where
  "modlogs e i a s =
     moderated e i s
       (answered_any e UnexpectedError
          (case guild i of
             None \<Rightarrow> Inl AttributeError
           | Some g \<Rightarrow> attempt e GetModLogs (attempt e RenderLogs (send e ModlogList))))"

text \<open>\<^verbatim>\<open>purge\<close>: the replies of the \<^verbatim>\<open>try\<close> block and of its \<^verbatim>\<open>except\<close> clauses go
  through \<^verbatim>\<open>followup.send\<close>.\<close>

definition purge :: "env \<Rightarrow> interaction \<Rightarrow> mod_args \<Rightarrow> bot_state \<Rightarrow> exn + reply" where
  "purge e i a s =
     moderated e i s
       (case guild i of
          None \<Rightarrow> Inl AttributeError
        | Some g \<Rightarrow>
          if \<not> me_manage_messages a then send e (BotLacks PurgeCmd)
          else if limit a < 1 \<or> limit a > 100 then send e BadLimit
          else (case channel i of
                  TextChannel c \<Rightarrow>
                    answered e PurgeCmd
                      (attempt e Defer
                         (attempt e ChannelPurge
                            (attempt e DbLogAction (send e (Done PurgeCmd False)))))
                | Thread t \<Rightarrow> send e (TextChannelOnly PurgeCmd)))"

text \<open>\<^verbatim>\<open>lock\<close> and \<^verbatim>\<open>unlock\<close>: the channel argument, or the channel of the interaction.\<close>

definition lock :: "env \<Rightarrow> interaction \<Rightarrow> mod_args \<Rightarrow> bot_state \<Rightarrow> exn + reply" where
  "lock e i a s =
     moderated e i s
       (case guild i of
          None \<Rightarrow> Inl AttributeError
        | Some g \<Rightarrow>
          if \<not> me_manage_channels a then send e (BotLacks LockCmd)
          else (case (case channel_option a of Some c \<Rightarrow> c | None \<Rightarrow> channel i) of
                  TextChannel c \<Rightarrow>
                    answered e LockCmd
                      (attempt e SetPermissions
                         (attempt e DbLogAction (send e (Done LockCmd False))))
                | Thread t \<Rightarrow> send e (TextChannelOnly LockCmd)))"

definition unlock :: "env \<Rightarrow> interaction \<Rightarrow> mod_args \<Rightarrow> bot_state \<Rightarrow> exn + reply" where
  "unlock e i a s =
     moderated e i s
       (case guild i of
          None \<Rightarrow> Inl AttributeError
        | Some g \<Rightarrow>
          if \<not> me_manage_channels a then send e (BotLacks UnlockCmd)
          else (case (case channel_option a of Some c \<Rightarrow> c | None \<Rightarrow> channel i) of
                  TextChannel c \<Rightarrow>
                    answered e UnlockCmd
                      (attempt e SetPermissions
                         (attempt e DbLogAction (send e (Done UnlockCmd False))))
                | Thread t \<Rightarrow> send e (TextChannelOnly UnlockCmd)))"

text \<open>\<^verbatim>\<open>list_whispers\<close> of the whisper cog: the guild test, then a \<^verbatim>\<open>try\<close> block with
  the administrator test, the read of the open rows and the rendering of the list (the
  formatting of a row's creation time can raise).\<close>

definition list_whispers :: "env \<Rightarrow> interaction \<Rightarrow> bot_state \<Rightarrow> exn + reply" where
  "list_whispers e i s =
     (case guild i of
        None \<Rightarrow> send e ServerOnly
      | Some g \<Rightarrow>
        answered_any e ListError
          (case user i of
             User n \<Rightarrow> Inl AttributeError
           | Member n p \<Rightarrow>
             if \<not> administrator p then send e ListNoPermission
             else attempt e DbFetchList
                    (if select_open_guild (whispers s) g = [] then send e NoActiveWhispers
                     else attempt e RenderList (send e WhisperList))))"

text \<open>The check that the decorator \<^verbatim>\<open>commands.has_permissions(administrator=True)\<close> puts
  in front of the two logging commands: the library raises \<^verbatim>\<open>MissingPermissions\<close> for an
  invoker without the permission, before the body of the command runs.\<close>

definition has_permissions_administrator :: "interaction \<Rightarrow> exn option" where
  "has_permissions_administrator i =
     (case user i of
        Member n p \<Rightarrow> if administrator p then None else Some MissingPermissions
      | User n \<Rightarrow> Some MissingPermissions)"

text \<open>\<^verbatim>\<open>logs\<close> of the logging cog: without a subcommand it sends the help text; it has no
  \<^verbatim>\<open>try\<close> block. With a subcommand its body does nothing and sends nothing.\<close>

definition logs :: "env \<Rightarrow> interaction \<Rightarrow> bool \<Rightarrow> exn + reply option" where
  "logs e i invoked_subcommand =
     (case has_permissions_administrator i of
        Some x \<Rightarrow> Inl x
      | None \<Rightarrow>
        if invoked_subcommand then Inr None
        else (case send e LogsHelp of Inl x \<Rightarrow> Inl x | Inr r \<Rightarrow> Inr (Some r)))"

text \<open>\<^verbatim>\<open>set_log_channel\<close> of the logging cog: one \<^verbatim>\<open>try\<close> block around the test of the
  bot's permissions in the channel, the store update, the reply and the test message.\<close>

definition set_log_channel :: "env \<Rightarrow> interaction \<Rightarrow> bool \<Rightarrow> bool \<Rightarrow> exn + reply" where
  "set_log_channel e i can_send can_embed =
     (case has_permissions_administrator i of
        Some x \<Rightarrow> Inl x
      | None \<Rightarrow>
        answered_any e LogError
          (case guild i of
             None \<Rightarrow> Inl AttributeError
           | Some g \<Rightarrow>
             if \<not> (can_send \<and> can_embed) then send e LogMissingPerms
             else attempt e UpdateGuildData
                    (case send e LogChannelSet of
                       Inl x \<Rightarrow> Inl x
                     | Inr r \<Rightarrow> attempt e TestSend (Inr r))))"

section \<open>Runs of the whisper system and its invariants\<close>

text \<open>The registry and the store agree: a pair has a cache entry exactly when the store
  has an open row for it.\<close>

definition has_open :: "whisper_row list \<Rightarrow> int \<Rightarrow> int \<Rightarrow> bool" where
  "has_open rows g u = (\<exists>r \<in> set rows. guild_id r = g \<and> user_id r = u \<and> is_open r)"








text \<open>The state at process start: the persisted store, an empty cache.\<close>

definition startup :: "whisper_row list \<Rightarrow> bot_state" where
  "startup rows =
     \<lparr>whispers = rows, active_whispers = Map.empty, cfg_whisper_enabled = Map.empty,
      cfg_whisper_channel = Map.empty, cfg_moderation_enabled = Map.empty,
      guild_channels = [], effects = []\<rparr>"


text \<open>The thread of the last open row of a pair, as the dict comprehension keeps it.\<close>

definition last_open_thread :: "whisper_row list \<Rightarrow> int \<Rightarrow> int \<Rightarrow> int option" where
  "last_open_thread rows g u =
     (case filter (\<lambda>r. guild_id r = g \<and> user_id r = u \<and> is_open r) rows of
        [] \<Rightarrow> None
      | r # rs \<Rightarrow> Some (thread_id (last (r # rs))))"

text \<open>An environment in which no call raises.\<close>

definition calm :: "nat \<Rightarrow> int \<Rightarrow> int \<Rightarrow> env" where
  "calm ts t c = \<lparr>raises = (\<lambda>x. None), now = ts, new_thread = t, new_channel = c\<rparr>"

text \<open>An environment in which exactly the given call raises the given exception.\<close>

definition failing :: "call \<Rightarrow> exn \<Rightarrow> nat \<Rightarrow> int \<Rightarrow> int \<Rightarrow> env" where
  "failing k x ts t c =
     \<lparr>raises = (\<lambda>y. if y = k then Some x else None), now = ts, new_thread = t, new_channel = c\<rparr>"

text \<open>Write-through order of an effect trace: a cache write comes directly after the
  store write of the same operation. The first argument is the effect just before.\<close>

fun store_first :: "effect option \<Rightarrow> effect list \<Rightarrow> bool" where
  "store_first prev [] = True"
| "store_first prev (RegistrySet g u t # xs) =
     ((case prev of
         Some (RowInserted r) \<Rightarrow> guild_id r = g \<and> user_id r = u \<and> thread_id r = t
       | _ \<Rightarrow> False) \<and>
      store_first (Some (RegistrySet g u t)) xs)"
| "store_first prev (RegistryRemoved g u # xs) =
     ((case prev of Some (RowsClosed g' t ts) \<Rightarrow> g' = g | _ \<Rightarrow> False) \<and>
      store_first (Some (RegistryRemoved g u)) xs)"
| "store_first prev (x # xs) = store_first (Some x) xs"

text \<open>The effects a handler added to the trace.\<close>

definition new_effects :: "bot_state \<Rightarrow> bot_state \<Rightarrow> effect list" where
  "new_effects s s' = drop (length (effects s)) (effects s')"

section \<open>Concrete inputs\<close>

definition no_perms :: permissions where
  "no_perms = \<lparr>administrator = False, manage_guild = False, kick_members = False,
               ban_members = False\<rparr>"

definition admin_perms :: permissions where
  "admin_perms = \<lparr>administrator = True, manage_guild = False, kick_members = False,
                  ban_members = False\<rparr>"

definition kick_perms :: permissions where
  "kick_perms = \<lparr>administrator = False, manage_guild = False, kick_members = True,
                 ban_members = False\<rparr>"

text \<open>User 7 invokes a command in text channel 5 of guild 1.\<close>

definition alice :: interaction where
  "alice = \<lparr>guild = Some 1, user = Member 7 no_perms, channel = TextChannel 5,
            reason = Some ''need help''\<rparr>"

text \<open>User 8 invokes a command in text channel 5 of guild 1.\<close>

definition bob :: interaction where
  "bob = \<lparr>guild = Some 1, user = Member 8 no_perms, channel = TextChannel 5, reason = None\<rparr>"

text \<open>Any arguments of a moderation command.\<close>

definition some_args :: mod_args where
  "some_args = \<lparr>member_id = 7, member_top_role = 1, me_top_role = 5, me_ban_members = True,
                me_moderate_members = True, me_manage_messages = True,
                me_manage_channels = True, duration = 10, is_timed_out = True, limit = 10,
                channel_option = None, mod_reason = ''spam''\<rparr>"

text \<open>Users 7 (the owner), 8 (a bystander) and 9 (an administrator) in thread 100.\<close>

definition alice_in_thread :: interaction where
  "alice_in_thread = \<lparr>guild = Some 1, user = Member 7 no_perms, channel = Thread 100,
                      reason = None\<rparr>"

definition bob_in_thread :: interaction where
  "bob_in_thread = \<lparr>guild = Some 1, user = Member 8 no_perms, channel = Thread 100,
                    reason = None\<rparr>"

definition admin_in_thread :: interaction where
  "admin_in_thread = \<lparr>guild = Some 1, user = Member 9 admin_perms, channel = Thread 100,
                      reason = Some ''resolved''\<rparr>"

text \<open>A moderator with the kick permission only, in text channel 5 of guild 1.\<close>

definition moderator :: interaction where
  "moderator = \<lparr>guild = Some 1, user = Member 8 kick_perms, channel = TextChannel 5,
                reason = None\<rparr>"

definition kick_alice :: kick_args where
  "kick_alice = \<lparr>target = 7, target_top_role = 1, bot_kick_members = True, bot_top_role = 5,
                 kick_reason = ''spam''\<rparr>"

text \<open>The open row of user 7 in guild 1 with thread 100, created at time 5.\<close>

definition open_row :: whisper_row where
  "open_row = \<lparr>guild_id = 1, user_id = 7, thread_id = 100, created_at = 5,
               closed_at = None, is_open = True\<rparr>"

text \<open>The state in which user 7 holds the open thread 100 of guild 1 in channel 50.\<close>

definition opened :: bot_state where
  "opened =
     \<lparr>whispers = [open_row], active_whispers = [1 \<mapsto> [7 \<mapsto> 100]],
      cfg_whisper_enabled = Map.empty, cfg_whisper_channel = [1 \<mapsto> 50],
      cfg_moderation_enabled = Map.empty, guild_channels = [(1, 50)],
      effects = [ChannelCreated 1 50, ThreadCreated 1 50 100,
                 OpeningPosted 100 7 ''need help'', RowInserted open_row,
                 RegistrySet 1 7 100]\<rparr>"


text \<open>A cache that holds an entry for user 7 of guild 1 over an empty store.\<close>

definition stale :: bot_state where
  "stale = (startup [])\<lparr>active_whispers := [1 \<mapsto> [7 \<mapsto> 100]]\<rparr>"

text \<open>A fresh state in which moderation is switched off for guild 1.\<close>

definition mod_disabled :: bot_state where
  "mod_disabled = (startup [])\<lparr>cfg_moderation_enabled := [1 \<mapsto> False]\<rparr>"

text \<open>User 7 invokes a command in a direct message, outside every guild.\<close>

definition outsider :: interaction where
  "outsider = \<lparr>guild = None, user = User 7, channel = TextChannel 5, reason = None\<rparr>"

section \<open>Auxiliary facts\<close>

lemma send_cases: "send e r = Inr r \<or> (\<exists>x. send e r = Inl x \<and> raises e (Send r) = Some x)"
  by (auto simp: send_def split: option.splits)

lemma setup_whisper_channel_frame:
  "whispers (snd (setup_whisper_channel e g s)) = whispers s \<and>
   active_whispers (snd (setup_whisper_channel e g s)) = active_whispers s \<and>
   cfg_whisper_enabled (snd (setup_whisper_channel e g s)) = cfg_whisper_enabled s"
  by (simp add: setup_whisper_channel_def log_effect_def Let_def split: option.splits)

lemma setup_whisper_channel_calm:
  assumes "\<forall>k. raises e k = None"
  shows "\<exists>c. fst (setup_whisper_channel e g s) = Some c"
  using assms
  by (simp add: setup_whisper_channel_def log_effect_def Let_def split: option.splits)


text \<open>The open command where the registry holds no entry for the invoker, the feature
  is enabled and no call raises.\<close>

lemma create_whisper_no_entry:
  assumes "guild i = Some g" and "lookup s g (uid (user i)) = None"
    and "config_get (cfg_whisper_enabled s) g True" and "\<forall>k. raises e k = None"
  shows "fst (create_whisper e i s) = Inr (Created (new_thread e)) \<and>
         whispers (snd (create_whisper e i s)) =
           whispers s @ [\<lparr>guild_id = g, user_id = uid (user i), thread_id = new_thread e,
                          created_at = now e, closed_at = None, is_open = True\<rparr>] \<and>
         lookup (snd (create_whisper e i s)) g (uid (user i)) = Some (new_thread e)"
proof -
  obtain c where c: "fst (setup_whisper_channel e g s) = Some c"
    using setup_whisper_channel_calm [OF assms(4)] by blast
  define s1 where "s1 = snd (setup_whisper_channel e g s)"
  have sc: "setup_whisper_channel e g s = (Some c, s1)"
    using c by (simp add: s1_def prod_eq_iff)
  have w1: "whispers s1 = whispers s"
    by (simp add: s1_def setup_whisper_channel_frame)
  define s2 where "s2 = snd (create_whisper_thread e g c (uid (user i)) (reason i) s1)"
  have ct: "create_whisper_thread e g c (uid (user i)) (reason i) s1 = (Some (new_thread e), s2)"
    using assms(4) by (simp add: s2_def create_whisper_thread_def Let_def)
  have w2: "whispers s2 = insert_open (whispers s1) g (uid (user i)) (new_thread e) (now e)"
    using assms(4) by (simp add: s2_def create_whisper_thread_def log_effect_def Let_def)
  have l2: "lookup s2 g (uid (user i)) = Some (new_thread e)"
    using assms(4) by (simp add: s2_def create_whisper_thread_def log_effect_def lookup_def Let_def)
  have "create_whisper e i s = (Inr (Created (new_thread e)), s2)"
    using assms sc ct
    by (simp add: create_whisper_def create_whisper_try_def send_def)
  then show ?thesis using w1 w2 l2 by (simp add: insert_open_def)
qed

lemma update_closed_rows:
  assumes "r \<in> set (update_closed rows g t ts)" and "guild_id r = g" and "thread_id r = t"
  shows "\<not> is_open r \<and> closed_at r = Some ts"
proof -
  from assms(1) obtain x where x: "x \<in> set rows"
    and r: "r = (if guild_id x = g \<and> thread_id x = t
                 then x\<lparr>is_open := False, closed_at := Some ts\<rparr> else x)"
    unfolding update_closed_def set_map by blast
  show ?thesis
  proof (cases "guild_id x = g \<and> thread_id x = t")
    case True
    with r show ?thesis by simp
  next
    case False
    with r assms(2,3) show ?thesis by simp
  qed
qed

text \<open>The outcome of a close that passes every test and meets no failure.\<close>

lemma close_whisper_authorized:
  assumes "guild i = Some g" and "channel i = Thread t"
    and "select_open_thread (whispers s) g t = Some w"
    and "user i = Member n p" and "administrator p \<or> n = user_id w"
    and "\<forall>k. raises e k = None"
  shows "close_whisper e i s =
     (Inr Closed,
      log_effect (ThreadArchivedLocked t)
        (case active_whispers s g of
           None \<Rightarrow>
             s\<lparr>whispers := update_closed (whispers s) g t (now e),
               effects := effects s @ [ClosingPosted t n (reason_text (reason i)),
                                       RowsClosed g t (now e)]\<rparr>
         | Some d \<Rightarrow>
             s\<lparr>whispers := update_closed (whispers s) g t (now e),
               active_whispers := (active_whispers s)(g \<mapsto> d(user_id w := None)),
               effects := effects s @ [ClosingPosted t n (reason_text (reason i)),
                                       RowsClosed g t (now e),
                                       RegistryRemoved g (user_id w)]\<rparr>))"
proof (cases "administrator p")
  case True
  with assms(1-4,6) show ?thesis
    by (cases "active_whispers s g")
       (simp_all add: close_whisper_def close_whisper_try_def send_def log_effect_def Let_def)
next
  case False
  with assms(5) have "n = user_id w" by simp
  with assms(1-4,6) show ?thesis
    by (cases "active_whispers s g")
       (simp_all add: close_whisper_def close_whisper_try_def send_def log_effect_def Let_def)
qed

section \<open>Closing a whisper\<close>

text \<open>
  C4. A successful close (the thread has an open row, the caller is an administrator or
  the owner, no call raises) adds its effects in this order: the closing message, the
  store update that marks the rows of the thread closed at the current time, the removal
  of the owner from the guild's cache dict (when the cache has a dict for the guild), the
  archiving and locking of the thread. Afterwards every row of the thread is closed with
  that closing time and a lookup for the owner gives nothing.
\<close>

theorem close_whisper_success:
  assumes "guild i = Some g" and "channel i = Thread t"
    and "select_open_thread (whispers s) g t = Some w"
    and "user i = Member n p" and "administrator p \<or> n = user_id w"
    and "\<forall>k. raises e k = None"
  shows "fst (close_whisper e i s) = Inr Closed \<and>
         effects (snd (close_whisper e i s)) =
           effects s @ [ClosingPosted t n (reason_text (reason i)), RowsClosed g t (now e)] @
           (if active_whispers s g = None then [] else [RegistryRemoved g (user_id w)]) @
           [ThreadArchivedLocked t] \<and>
         whispers (snd (close_whisper e i s)) = update_closed (whispers s) g t (now e) \<and>
         (\<forall>r \<in> set (whispers (snd (close_whisper e i s))).
            guild_id r = g \<and> thread_id r = t \<longrightarrow> \<not> is_open r \<and> closed_at r = Some (now e)) \<and>
         lookup (snd (close_whisper e i s)) g (user_id w) = None"
proof -
  note eq = close_whisper_authorized [OF assms]
  have 1: "fst (close_whisper e i s) = Inr Closed"
    by (simp add: eq)
  have 2: "effects (snd (close_whisper e i s)) =
           effects s @ [ClosingPosted t n (reason_text (reason i)), RowsClosed g t (now e)] @
           (if active_whispers s g = None then [] else [RegistryRemoved g (user_id w)]) @
           [ThreadArchivedLocked t]"
    by (cases "active_whispers s g") (simp_all add: eq log_effect_def)
  have 3: "whispers (snd (close_whisper e i s)) = update_closed (whispers s) g t (now e)"
    by (cases "active_whispers s g") (simp_all add: eq log_effect_def)
  have 4: "lookup (snd (close_whisper e i s)) g (user_id w) = None"
    by (cases "active_whispers s g") (simp_all add: eq log_effect_def lookup_def)
  have 5: "\<forall>r \<in> set (whispers (snd (close_whisper e i s))).
            guild_id r = g \<and> thread_id r = t \<longrightarrow> \<not> is_open r \<and> closed_at r = Some (now e)"
    unfolding 3 using update_closed_rows by blast
  from 1 2 3 4 5 show ?thesis
    by blast
qed

theorem close_whisper_success_witness:
  "guild admin_in_thread = Some 1 \<and> channel admin_in_thread = Thread 100 \<and>
   select_open_thread (whispers opened) 1 100 = Some open_row \<and>
   user admin_in_thread = Member 9 admin_perms \<and>
   (administrator admin_perms \<or> 9 = user_id open_row) \<and>
   (\<forall>k. raises (calm 9 0 0) k = None) \<and>
   fst (close_whisper (calm 9 0 0) admin_in_thread opened) = Inr Closed \<and>
   effects (snd (close_whisper (calm 9 0 0) admin_in_thread opened)) =
     effects opened @ [ClosingPosted 100 9 ''resolved'', RowsClosed 1 100 9,
                       RegistryRemoved 1 7, ThreadArchivedLocked 100] \<and>
   whispers (snd (close_whisper (calm 9 0 0) admin_in_thread opened)) =
     [open_row\<lparr>is_open := False, closed_at := Some 9\<rparr>] \<and>
   lookup (snd (close_whisper (calm 9 0 0) admin_in_thread opened)) 1 7 = None"
proof -
  have g: "guild admin_in_thread = Some 1" and c: "channel admin_in_thread = Thread 100"
    and u: "user admin_in_thread = Member 9 admin_perms"
    by (simp_all add: admin_in_thread_def)
  have w: "select_open_thread (whispers opened) 1 100 = Some open_row"
    by (simp add: select_open_thread_def opened_def open_row_def)
  have a: "administrator admin_perms \<or> 9 = user_id open_row"
    by (simp add: admin_perms_def)
  have r: "\<forall>k. raises (calm 9 0 0) k = None"
    by (simp add: calm_def)
  have n: "active_whispers opened 1 \<noteq> None" "reason_text (reason admin_in_thread) = ''resolved''"
    "now (calm 9 0 0) = 9" "user_id open_row = 7"
    "update_closed (whispers opened) 1 100 9 = [open_row\<lparr>is_open := False, closed_at := Some 9\<rparr>]"
    by (simp_all add: opened_def admin_in_thread_def reason_text_def calm_def open_row_def
        update_closed_def)
  from close_whisper_success [OF g c w u a r] g c w u a r n
  show ?thesis by simp
qed

text \<open>
  C6. A close on a thread with an open row, by a caller who is neither the owner of the
  row nor an administrator, changes nothing: the state after the handler, with the store,
  the registry and the trace of platform effects, is the state before, whatever calls
  raise, and the reply is never the confirmation of a close. For a guild member, when
  the store read and the reply do not raise, the reply is the refusal for lack of
  permission.
\<close>

theorem close_whisper_refused_not_owner:
  assumes "guild i = Some g" and "channel i = Thread t"
    and "select_open_thread (whispers s) g t = Some w"
    and "uid (user i) \<noteq> user_id w"
    and "\<forall>n p. user i = Member n p \<longrightarrow> \<not> administrator p"
  shows "snd (close_whisper e i s) = s \<and>
         fst (close_whisper e i s) \<noteq> Inr Closed \<and>
         ((\<exists>n p. user i = Member n p) \<and> raises e DbFetchOne = None \<and>
          raises e (Send NoPermission) = None \<longrightarrow>
            fst (close_whisper e i s) = Inr NoPermission)"
  using assms
  by (cases "user i")
     (auto simp: close_whisper_def close_whisper_try_def send_def split: option.splits)

theorem close_whisper_refused_not_owner_witness:
  "guild bob_in_thread = Some 1 \<and> channel bob_in_thread = Thread 100 \<and>
   select_open_thread (whispers opened) 1 100 = Some open_row \<and>
   uid (user bob_in_thread) \<noteq> user_id open_row \<and>
   user bob_in_thread = Member 8 no_perms \<and> \<not> administrator no_perms \<and>
   snd (close_whisper (calm 9 0 0) bob_in_thread opened) = opened \<and>
   fst (close_whisper (calm 9 0 0) bob_in_thread opened) = Inr NoPermission"
proof -
  have g: "guild bob_in_thread = Some 1" and c: "channel bob_in_thread = Thread 100"
    by (simp_all add: bob_in_thread_def)
  have w: "select_open_thread (whispers opened) 1 100 = Some open_row"
    by (simp add: select_open_thread_def opened_def open_row_def)
  have u: "uid (user bob_in_thread) \<noteq> user_id open_row"
    by (simp add: bob_in_thread_def open_row_def)
  have a: "\<forall>n p. user bob_in_thread = Member n p \<longrightarrow> \<not> administrator p"
    by (simp add: bob_in_thread_def no_perms_def)
  have m: "(\<exists>n p. user bob_in_thread = Member n p) \<and> raises (calm 9 0 0) DbFetchOne = None \<and>
           raises (calm 9 0 0) (Send NoPermission) = None"
    by (simp add: bob_in_thread_def calm_def)
  have b: "user bob_in_thread = Member 8 no_perms \<and> \<not> administrator no_perms"
    by (simp add: bob_in_thread_def no_perms_def)
  from close_whisper_refused_not_owner [OF g c w u a, of "calm 9 0 0"] g c w u b m
  show ?thesis by simp
qed

text \<open>
  C7. A close on a thread for which the store has no open row (the thread was closed
  already, or was never a whisper thread) changes nothing: the state after the handler
  is the state before, whatever calls raise, so there is no store write, no registry
  change and no platform effect, and the reply is never the confirmation of a close.
  When the store read and the reply do not raise, the reply is "not a whisper thread".
\<close>

theorem close_whisper_not_whisper_thread:
  assumes "guild i = Some g" and "channel i = Thread t"
    and "\<not> (\<exists>r \<in> set (whispers s). guild_id r = g \<and> thread_id r = t \<and> is_open r)"
  shows "snd (close_whisper e i s) = s \<and>
         fst (close_whisper e i s) \<noteq> Inr Closed \<and>
         (raises e DbFetchOne = None \<and> raises e (Send NotWhisperThread) = None \<longrightarrow>
            fst (close_whisper e i s) = Inr NotWhisperThread)"
proof -
  from assms(3) have "select_open_thread (whispers s) g t = None"
    by (auto simp: select_open_thread_def find_None_iff)
  with assms(1,2) show ?thesis
    by (auto simp: close_whisper_def close_whisper_try_def send_def split: option.splits)
qed

theorem close_whisper_not_whisper_thread_witness:
  "guild admin_in_thread = Some 1 \<and> channel admin_in_thread = Thread 100 \<and>
   \<not> (\<exists>r \<in> set (whispers (snd (close_whisper (calm 9 0 0) admin_in_thread opened))).
         guild_id r = 1 \<and> thread_id r = 100 \<and> is_open r) \<and>
   snd (close_whisper (calm 10 0 0) admin_in_thread
          (snd (close_whisper (calm 9 0 0) admin_in_thread opened))) =
     snd (close_whisper (calm 9 0 0) admin_in_thread opened) \<and>
   fst (close_whisper (calm 10 0 0) admin_in_thread
          (snd (close_whisper (calm 9 0 0) admin_in_thread opened))) = Inr NotWhisperThread"
proof -
  have g: "guild admin_in_thread = Some 1" and c: "channel admin_in_thread = Thread 100"
    by (simp_all add: admin_in_thread_def)
  have ws: "whispers (snd (close_whisper (calm 9 0 0) admin_in_thread opened)) =
      [open_row\<lparr>is_open := False, closed_at := Some 9\<rparr>]"
    by (simp add: close_whisper_def close_whisper_try_def send_def log_effect_def Let_def
        select_open_thread_def update_closed_def calm_def admin_in_thread_def admin_perms_def
        opened_def open_row_def)
  have n: "\<not> (\<exists>r \<in> set (whispers (snd (close_whisper (calm 9 0 0) admin_in_thread opened))).
         guild_id r = 1 \<and> thread_id r = 100 \<and> is_open r)"
    by (simp add: ws)
  have m: "raises (calm 10 0 0) DbFetchOne = None \<and>
           raises (calm 10 0 0) (Send NotWhisperThread) = None"
    by (simp add: calm_def)
  from close_whisper_not_whisper_thread [OF g c n, of "calm 10 0 0"] g c n m
  show ?thesis by simp
qed

section \<open>The moderation permission check\<close>

text \<open>
  C10. A guild member who holds the administrator or the manage-guild permission passes
  the moderation permission check whatever the stored moderation flag is and whether or
  not the configuration can be read: the check answers before it reads the flag. A member
  without these two permissions is refused when the flag is stored as false, also when
  the member holds the kick or the ban permission.
\<close>

theorem check_mod_permissions_admin:
  assumes "guild i = Some g" and "user i = Member n p"
  shows "(administrator p \<or> manage_guild p \<longrightarrow> check_mod_permissions e i s = Inr True) \<and>
         (\<not> administrator p \<and> \<not> manage_guild p \<and> raises e ModConfigGet = None \<and>
          cfg_moderation_enabled s g = Some False \<longrightarrow> check_mod_permissions e i s = Inr False)"
  using assms by (simp add: check_mod_permissions_def config_get_def)

theorem check_mod_permissions_admin_witness:
  "guild admin_in_thread = Some 1 \<and> user admin_in_thread = Member 9 admin_perms \<and>
   guild moderator = Some 1 \<and> user moderator = Member 8 kick_perms \<and>
   check_mod_permissions (failing ModConfigGet OtherError 0 0 0) admin_in_thread mod_disabled =
     Inr True \<and>
   check_mod_permissions (calm 0 0 0) moderator mod_disabled = Inr False"
proof -
  have g: "guild admin_in_thread = Some 1" and u: "user admin_in_thread = Member 9 admin_perms"
    and g': "guild moderator = Some 1" and u': "user moderator = Member 8 kick_perms"
    by (simp_all add: admin_in_thread_def moderator_def)
  have a: "administrator admin_perms \<or> manage_guild admin_perms"
    by (simp add: admin_perms_def)
  have k: "\<not> administrator kick_perms \<and> \<not> manage_guild kick_perms \<and>
           raises (calm 0 0 0) ModConfigGet = None \<and>
           cfg_moderation_enabled mod_disabled 1 = Some False"
    by (simp add: kick_perms_def calm_def mod_disabled_def)
  from check_mod_permissions_admin [OF g u, of "failing ModConfigGet OtherError 0 0 0" mod_disabled]
    check_mod_permissions_admin [OF g' u', of "calm 0 0 0" mod_disabled] a k g u g' u'
  show ?thesis by simp
qed

lemma send_Inl: "send e r = Inl x \<Longrightarrow> \<exists>r. raises e (Send r) = Some x"
  using send_cases [of e r] by auto

lemma create_whisper_Inl:
  assumes "fst (create_whisper e i s) = Inl x"
  shows "\<exists>r. raises e (Send r) = Some x"
proof (cases "guild i")
  case None
  with assms have "send e ServerOnly = Inl x"
    by (simp add: create_whisper_def)
  then show ?thesis by (rule send_Inl)
next
  case (Some g)
  obtain y s1 where t: "create_whisper_try e i g s = (y, s1)"
    by (cases "create_whisper_try e i g s")
  show ?thesis
  proof (cases y)
    case (Inl z)
    with assms Some t have "send e CreateError = Inl x"
      by (simp add: create_whisper_def)
    then show ?thesis by (rule send_Inl)
  next
    case (Inr r)
    with assms Some t show ?thesis
      by (simp add: create_whisper_def)
  qed
qed

lemma close_whisper_Inl:
  assumes "fst (close_whisper e i s) = Inl x"
  shows "\<exists>r. raises e (Send r) = Some x"
proof (cases "\<exists>g t. guild i = Some g \<and> channel i = Thread t")
  case False
  then have "close_whisper e i s = (send e ThreadOnly, s)"
    by (cases "guild i"; cases "channel i") (simp_all add: close_whisper_def)
  with assms have "send e ThreadOnly = Inl x" by simp
  then show ?thesis by (rule send_Inl)
next
  case True
  then obtain g t where g: "guild i = Some g" and c: "channel i = Thread t" by blast
  obtain y s1 where t: "close_whisper_try e i g t s = (y, s1)"
    by (cases "close_whisper_try e i g t s")
  show ?thesis
  proof (cases y)
    case (Inl z)
    with assms g c t have "send e CloseError = Inl x"
      by (simp add: close_whisper_def)
    then show ?thesis by (rule send_Inl)
  next
    case (Inr r)
    with assms g c t show ?thesis
      by (simp add: close_whisper_def)
  qed
qed

lemma check_mod_permissions_Inl:
  "check_mod_permissions e i s = Inl x \<Longrightarrow> raises e ModConfigGet = Some x"
  by (simp add: check_mod_permissions_def split: option.splits user.splits if_splits)

lemma check_mod_permissions_guild:
  "check_mod_permissions e i s = Inr True \<Longrightarrow> \<exists>g. guild i = Some g"
  by (simp add: check_mod_permissions_def split: option.splits)

lemma kick_Inl:
  assumes "fst (kick e i a s) = Inl x"
  shows "(\<exists>r. raises e (Send r) = Some x) \<or> raises e ModConfigGet = Some x"
proof (cases "check_mod_permissions e i s")
  case (Inl z)
  with assms have "z = x" by (simp add: kick_def)
  with Inl show ?thesis by (simp add: check_mod_permissions_Inl)
next
  case (Inr b)
  show ?thesis
  proof (cases b)
    case False
    with Inr assms have "send e ModNoPermission = Inl x" by (simp add: kick_def)
    then show ?thesis using send_Inl by blast
  next
    case True
    with Inr have "check_mod_permissions e i s = Inr True" by simp
    then obtain g where g: "guild i = Some g"
      using check_mod_permissions_guild by blast
    obtain y s1 where t: "kick_try e i g a s = (y, s1)"
      by (cases "kick_try e i g a s")
    have "\<exists>r. fst (kick e i a s) = send e r \<or> fst (kick e i a s) = Inr r"
      using Inr True g t
      by (cases y) (auto simp: kick_def split: exn.splits)
    then obtain r where "fst (kick e i a s) = send e r \<or> fst (kick e i a s) = Inr r"
      by blast
    with assms have "send e r = Inl x" by auto
    then show ?thesis using send_Inl by blast
  qed
qed

lemma new_effects_append:
  "effects s' = effects s @ xs \<Longrightarrow> new_effects s s' = xs"
  by (simp add: new_effects_def)

lemma store_first_any:
  assumes "store_first None xs"
  shows "store_first p xs"
proof (cases xs)
  case Nil
  then show ?thesis by simp
next
  case (Cons x ys)
  with assms show ?thesis by (cases x) simp_all
qed

lemma store_first_append:
  "store_first p xs \<Longrightarrow> store_first None ys \<Longrightarrow> store_first p (xs @ ys)"
proof (induction xs arbitrary: p)
  case Nil
  then show ?case by (simp add: store_first_any)
next
  case (Cons x xs)
  then show ?case by (cases x) simp_all
qed

text \<open>A step that appends a write-through trace.\<close>

lemma extends_compose:
  assumes "effects s1 = effects s @ new_effects s s1" and "store_first None (new_effects s s1)"
    and "effects s2 = effects s1 @ new_effects s1 s2" and "store_first None (new_effects s1 s2)"
  shows "effects s2 = effects s @ new_effects s s2 \<and> store_first None (new_effects s s2)"
proof -
  have e: "effects s2 = effects s @ (new_effects s s1 @ new_effects s1 s2)"
    using assms(1,3) by simp
  then have "new_effects s s2 = new_effects s s1 @ new_effects s1 s2"
    by (rule new_effects_append)
  with e assms(2,4) show ?thesis
    by (simp add: store_first_append)
qed

lemma setup_whisper_channel_effects:
  "effects (snd (setup_whisper_channel e g s)) =
     effects s @ new_effects s (snd (setup_whisper_channel e g s)) \<and>
   store_first None (new_effects s (snd (setup_whisper_channel e g s)))"
  by (simp add: setup_whisper_channel_def log_effect_def new_effects_def Let_def
      split: option.splits)

lemma create_whisper_thread_effects:
  "effects (snd (create_whisper_thread e g c u rs s)) =
     effects s @ new_effects s (snd (create_whisper_thread e g c u rs s)) \<and>
   store_first None (new_effects s (snd (create_whisper_thread e g c u rs s)))"
  by (cases "raises e CreateThread"; cases "raises e ThreadSend"; cases "raises e DbInsert")
     (simp_all add: create_whisper_thread_def log_effect_def new_effects_def Let_def)

lemma create_whisper_thread_store:
  "(whispers (snd (create_whisper_thread e g c u rs s)) = whispers s \<and>
    active_whispers (snd (create_whisper_thread e g c u rs s)) = active_whispers s \<and>
    fst (create_whisper_thread e g c u rs s) = None) \<or>
   (whispers (snd (create_whisper_thread e g c u rs s)) =
      insert_open (whispers s) g u (new_thread e) (now e) \<and>
    active_whispers (snd (create_whisper_thread e g c u rs s)) =
      (active_whispers s)
        (g \<mapsto> (case active_whispers s g of None \<Rightarrow> Map.empty | Some d \<Rightarrow> d)(u \<mapsto> new_thread e)) \<and>
    fst (create_whisper_thread e g c u rs s) = Some (new_thread e) \<and>
    raises e DbInsert = None)"
  by (cases "raises e CreateThread"; cases "raises e ThreadSend"; cases "raises e DbInsert")
     (simp_all add: create_whisper_thread_def log_effect_def Let_def)

text \<open>What the open handler leaves behind: the state as it was, the state after the
  channel set-up, or the state after the channel set-up and the thread creation.\<close>

lemma create_whisper_snd:
  "snd (create_whisper e i s) = s \<or>
   (\<exists>g. guild i = Some g \<and> lookup s g (uid (user i)) = None \<and>
      (snd (create_whisper e i s) = snd (setup_whisper_channel e g s) \<or>
       (\<exists>c. snd (create_whisper e i s) =
              snd (create_whisper_thread e g c (uid (user i)) (reason i)
                     (snd (setup_whisper_channel e g s))))))"
proof (cases "guild i")
  case None
  then show ?thesis by (simp add: create_whisper_def)
next
  case (Some g)
  have "snd (create_whisper e i s) = snd (create_whisper_try e i g s)"
    using Some by (simp add: create_whisper_def split: prod.splits sum.splits)
  moreover have "snd (create_whisper_try e i g s) = s \<or>
     (lookup s g (uid (user i)) = None \<and>
      (snd (create_whisper_try e i g s) = snd (setup_whisper_channel e g s) \<or>
       (\<exists>c. snd (create_whisper_try e i g s) =
              snd (create_whisper_thread e g c (uid (user i)) (reason i)
                     (snd (setup_whisper_channel e g s))))))"
  proof (cases "setup_whisper_channel e g s")
    case (Pair oc s1)
    show ?thesis
    proof (cases oc)
      case None
      with Pair show ?thesis
        by (simp add: create_whisper_try_def split: option.splits)
    next
      case (Some c)
      obtain ot s2 where ct: "create_whisper_thread e g c (uid (user i)) (reason i) s1 = (ot, s2)"
        by (cases "create_whisper_thread e g c (uid (user i)) (reason i) s1")
      have "snd (create_whisper_try e i g s) = s \<or>
            (lookup s g (uid (user i)) = None \<and> snd (create_whisper_try e i g s) = s2)"
        using Pair Some ct
        by (cases ot) (simp_all add: create_whisper_try_def split: option.splits)
      moreover have "s2 = snd (create_whisper_thread e g c (uid (user i)) (reason i)
                     (snd (setup_whisper_channel e g s)))"
        using Pair ct by simp
      ultimately show ?thesis by metis
    qed
  qed
  ultimately show ?thesis using Some by simp
qed

lemma create_whisper_effects:
  "effects (snd (create_whisper e i s)) = effects s @ new_effects s (snd (create_whisper e i s)) \<and>
   store_first None (new_effects s (snd (create_whisper e i s)))"
proof -
  have same: "effects s = effects s @ new_effects s s \<and> store_first None (new_effects s s)"
    by (simp add: new_effects_def)
  from create_whisper_snd [of e i s] show ?thesis
  proof (elim disjE exE conjE)
    assume "snd (create_whisper e i s) = s"
    with same show ?thesis by simp
  next
    fix g
    assume "snd (create_whisper e i s) = snd (setup_whisper_channel e g s)"
    then show ?thesis by (simp add: setup_whisper_channel_effects)
  next
    fix g c
    assume "snd (create_whisper e i s) =
            snd (create_whisper_thread e g c (uid (user i)) (reason i)
                   (snd (setup_whisper_channel e g s)))"
    then show ?thesis
      using extends_compose [OF setup_whisper_channel_effects [THEN conjunct1]
              setup_whisper_channel_effects [THEN conjunct2]
              create_whisper_thread_effects [THEN conjunct1]
              create_whisper_thread_effects [THEN conjunct2]]
      by simp
  qed
qed

lemma create_whisper_store:
  "(whispers (snd (create_whisper e i s)) = whispers s \<and>
    active_whispers (snd (create_whisper e i s)) = active_whispers s) \<or>
   (\<exists>g. guild i = Some g \<and> lookup s g (uid (user i)) = None \<and> raises e DbInsert = None \<and>
      whispers (snd (create_whisper e i s)) =
        insert_open (whispers s) g (uid (user i)) (new_thread e) (now e) \<and>
      active_whispers (snd (create_whisper e i s)) =
        (active_whispers s)
          (g \<mapsto> (case active_whispers s g of None \<Rightarrow> Map.empty | Some d \<Rightarrow> d)
                   (uid (user i) \<mapsto> new_thread e)))"
proof -
  from create_whisper_snd [of e i s] show ?thesis
  proof (elim disjE exE conjE)
    assume "snd (create_whisper e i s) = s"
    then show ?thesis by simp
  next
    fix g
    assume "snd (create_whisper e i s) = snd (setup_whisper_channel e g s)"
    then show ?thesis by (simp add: setup_whisper_channel_frame)
  next
    fix g c
    assume g: "guild i = Some g" and l: "lookup s g (uid (user i)) = None"
      and eq: "snd (create_whisper e i s) =
            snd (create_whisper_thread e g c (uid (user i)) (reason i)
                   (snd (setup_whisper_channel e g s)))"
    from create_whisper_thread_store
           [of e g c "uid (user i)" "reason i" "snd (setup_whisper_channel e g s)"]
    show ?thesis
      unfolding eq setup_whisper_channel_frame [THEN conjunct1]
        setup_whisper_channel_frame [THEN conjunct2, THEN conjunct1]
      using g l by blast
  qed
qed

lemma create_whisper_Created:
  assumes "fst (create_whisper e i s) = Inr (Created t)"
  shows "raises e DbInsert = None"
proof (cases "guild i")
  case None
  with assms show ?thesis
    by (simp add: create_whisper_def send_def split: option.splits)
next
  case (Some g)
  obtain oc s1 where sc: "setup_whisper_channel e g s = (oc, s1)"
    by (cases "setup_whisper_channel e g s")
  show ?thesis
  proof (cases oc)
    case None
    with assms Some sc show ?thesis
      by (simp add: create_whisper_def create_whisper_try_def send_def
          split: option.splits if_splits)
  next
    case (Some c)
    obtain ot s2 where ct: "create_whisper_thread e g c (uid (user i)) (reason i) s1 = (ot, s2)"
      by (cases "create_whisper_thread e g c (uid (user i)) (reason i) s1")
    show ?thesis
    proof (cases ot)
      case None
      with assms \<open>guild i = Some g\<close> sc Some ct show ?thesis
        by (simp add: create_whisper_def create_whisper_try_def send_def
            split: option.splits if_splits)
    next
      case (Some t')
      with create_whisper_thread_store [of e g c "uid (user i)" "reason i" s1] ct
      show ?thesis by auto
    qed
  qed
qed

lemma close_whisper_try_effects:
  "effects (snd (close_whisper_try e i g t s)) =
     effects s @ new_effects s (snd (close_whisper_try e i g t s)) \<and>
   store_first None (new_effects s (snd (close_whisper_try e i g t s)))"
  by (cases "raises e DbFetchOne"; cases "select_open_thread (whispers s) g t"; cases "user i";
      cases "raises e ChannelSend"; cases "raises e DbUpdate"; cases "active_whispers s g";
      cases "raises e ThreadEdit")
     (simp_all add: close_whisper_try_def log_effect_def new_effects_def Let_def)

lemma close_whisper_try_store:
  "(whispers (snd (close_whisper_try e i g t s)) = whispers s \<and>
    active_whispers (snd (close_whisper_try e i g t s)) = active_whispers s \<and>
    fst (close_whisper_try e i g t s) \<noteq> Inr Closed) \<or>
   (\<exists>w. select_open_thread (whispers s) g t = Some w \<and> raises e DbUpdate = None \<and>
      whispers (snd (close_whisper_try e i g t s)) = update_closed (whispers s) g t (now e) \<and>
      active_whispers (snd (close_whisper_try e i g t s)) =
        (case active_whispers s g of None \<Rightarrow> active_whispers s
         | Some d \<Rightarrow> (active_whispers s)(g \<mapsto> d(user_id w := None))))"
  by (cases "raises e DbFetchOne"; cases "select_open_thread (whispers s) g t"; cases "user i";
      cases "raises e ChannelSend"; cases "raises e DbUpdate"; cases "active_whispers s g";
      cases "raises e ThreadEdit")
     (simp_all add: close_whisper_try_def log_effect_def send_def Let_def split: option.splits)

text \<open>The close handler keeps the state of its \<^verbatim>\<open>try\<close> block, or the state as it was.\<close>

lemma close_whisper_snd:
  "(snd (close_whisper e i s) = s \<and> fst (close_whisper e i s) \<noteq> Inr Closed) \<or>
   (\<exists>g t. guild i = Some g \<and> channel i = Thread t \<and>
      snd (close_whisper e i s) = snd (close_whisper_try e i g t s) \<and>
      (fst (close_whisper e i s) = Inr Closed \<longrightarrow>
         fst (close_whisper_try e i g t s) = Inr Closed))"
proof (cases "\<exists>g t. guild i = Some g \<and> channel i = Thread t")
  case False
  then have "close_whisper e i s = (send e ThreadOnly, s)"
    by (cases "guild i"; cases "channel i") (simp_all add: close_whisper_def)
  then show ?thesis
    by (simp add: send_def split: option.splits)
next
  case True
  then obtain g t where g: "guild i = Some g" and c: "channel i = Thread t" by blast
  obtain y s1 where t: "close_whisper_try e i g t s = (y, s1)"
    by (cases "close_whisper_try e i g t s")
  have "snd (close_whisper e i s) = snd (close_whisper_try e i g t s) \<and>
      (fst (close_whisper e i s) = Inr Closed \<longrightarrow>
         fst (close_whisper_try e i g t s) = Inr Closed)"
    using g c t
    by (cases y) (simp_all add: close_whisper_def send_def split: option.splits)
  with g c show ?thesis by blast
qed

lemma close_whisper_effects:
  "effects (snd (close_whisper e i s)) = effects s @ new_effects s (snd (close_whisper e i s)) \<and>
   store_first None (new_effects s (snd (close_whisper e i s)))"
proof -
  have same: "effects s = effects s @ new_effects s s \<and> store_first None (new_effects s s)"
    by (simp add: new_effects_def)
  from close_whisper_snd [of e i s] show ?thesis
  proof (elim disjE exE conjE)
    assume "snd (close_whisper e i s) = s"
    with same show ?thesis by simp
  next
    fix g t
    assume "snd (close_whisper e i s) = snd (close_whisper_try e i g t s)"
    then show ?thesis by (simp add: close_whisper_try_effects)
  qed
qed

lemma close_whisper_store:
  "(whispers (snd (close_whisper e i s)) = whispers s \<and>
    active_whispers (snd (close_whisper e i s)) = active_whispers s \<and>
    fst (close_whisper e i s) \<noteq> Inr Closed) \<or>
   (\<exists>g t w. guild i = Some g \<and> channel i = Thread t \<and>
      select_open_thread (whispers s) g t = Some w \<and> raises e DbUpdate = None \<and>
      whispers (snd (close_whisper e i s)) = update_closed (whispers s) g t (now e) \<and>
      active_whispers (snd (close_whisper e i s)) =
        (case active_whispers s g of None \<Rightarrow> active_whispers s
         | Some d \<Rightarrow> (active_whispers s)(g \<mapsto> d(user_id w := None))))"
proof -
  from close_whisper_snd [of e i s] show ?thesis
  proof (elim disjE exE conjE)
    assume "snd (close_whisper e i s) = s" and "fst (close_whisper e i s) \<noteq> Inr Closed"
    then show ?thesis by simp
  next
    fix g t
    assume g: "guild i = Some g" and c: "channel i = Thread t"
      and eq: "snd (close_whisper e i s) = snd (close_whisper_try e i g t s)"
      and f: "fst (close_whisper e i s) = Inr Closed \<longrightarrow>
              fst (close_whisper_try e i g t s) = Inr Closed"
    from close_whisper_try_store [of e i g t s] show ?thesis
      unfolding eq using g c f by blast
  qed
qed

lemma setup_whisper_channel_ok:
  assumes "raises e SetupGetChannel = None" and "raises e SetupGetEnabled = None"
    and "raises e CreateTextChannel = None" and "raises e ConfigSetChannel = None"
  shows "\<exists>c. fst (setup_whisper_channel e g s) = Some c"
  using assms
  by (simp add: setup_whisper_channel_def log_effect_def Let_def split: option.splits)

text \<open>The insert is reached and raises: the caller is told that the creation failed.\<close>

lemma create_whisper_insert_fails:
  assumes "guild i = Some g" and "lookup s g (uid (user i)) = None"
    and "config_get (cfg_whisper_enabled s) g True"
    and "raises e DbInsert \<noteq> None" and "\<forall>k. k \<noteq> DbInsert \<longrightarrow> raises e k = None"
  shows "fst (create_whisper e i s) = Inr CreateFailed"
proof -
  obtain c where c: "fst (setup_whisper_channel e g s) = Some c"
    using setup_whisper_channel_ok [of e g s] assms(5) by auto
  define s1 where "s1 = snd (setup_whisper_channel e g s)"
  have sc: "setup_whisper_channel e g s = (Some c, s1)"
    using c by (simp add: s1_def prod_eq_iff)
  define s2 where "s2 = snd (create_whisper_thread e g c (uid (user i)) (reason i) s1)"
  have "fst (create_whisper_thread e g c (uid (user i)) (reason i) s1) = None"
    using create_whisper_thread_store [of e g c "uid (user i)" "reason i" s1] assms(4) by auto
  then have ct: "create_whisper_thread e g c (uid (user i)) (reason i) s1 = (None, s2)"
    by (simp add: s2_def prod_eq_iff)
  from assms(5) have r: "raises e ConfigGetEnabled = None" "raises e Defer = None"
    "raises e (Send CreateFailed) = None"
    by simp_all
  show ?thesis
    using assms(1-3) sc ct r
    by (simp add: create_whisper_def create_whisper_try_def send_def)
qed

text \<open>The update is reached and raises: the caller is told that the close failed.\<close>

lemma close_whisper_update_fails:
  assumes "guild i = Some g" and "channel i = Thread t"
    and "select_open_thread (whispers s) g t = Some w"
    and "user i = Member n p" and "administrator p \<or> n = user_id w"
    and "raises e DbUpdate \<noteq> None" and "\<forall>k. k \<noteq> DbUpdate \<longrightarrow> raises e k = None"
  shows "fst (close_whisper e i s) = Inr CloseError"
proof -
  from assms(7) have r: "raises e DbFetchOne = None" "raises e ChannelSend = None"
    "raises e (Send CloseError) = None"
    by simp_all
  from assms(6) obtain x where x: "raises e DbUpdate = Some x" by blast
  show ?thesis
  proof (cases "administrator p")
    case True
    with assms(1-4) r x show ?thesis
      by (simp add: close_whisper_def close_whisper_try_def send_def log_effect_def Let_def)
  next
    case False
    with assms(5) have "n = user_id w" by simp
    with assms(1-4) r x show ?thesis
      by (simp add: close_whisper_def close_whisper_try_def send_def log_effect_def Let_def)
  qed
qed

section \<open>Write-through order\<close>

text \<open>
  C8. In the open and in the close handler the trace that the handler adds is in
  write-through order: a write to the cache comes directly after the store write of the
  same operation, never without it. When the store write raises (the INSERT of an open,
  the UPDATE of a close), the cache and the store are as before and no success is
  reported; when the write is reached and is the only call that raises, the caller gets
  the failure reply of the handler.
\<close>

theorem store_write_precedes_registry:
  "effects (snd (create_whisper e i s)) =
     effects s @ new_effects s (snd (create_whisper e i s)) \<and>
   store_first None (new_effects s (snd (create_whisper e i s))) \<and>
   effects (snd (close_whisper e i s)) =
     effects s @ new_effects s (snd (close_whisper e i s)) \<and>
   store_first None (new_effects s (snd (close_whisper e i s))) \<and>
   (raises e DbInsert \<noteq> None \<longrightarrow>
      active_whispers (snd (create_whisper e i s)) = active_whispers s \<and>
      whispers (snd (create_whisper e i s)) = whispers s \<and>
      (\<forall>t. fst (create_whisper e i s) \<noteq> Inr (Created t))) \<and>
   (raises e DbUpdate \<noteq> None \<longrightarrow>
      active_whispers (snd (close_whisper e i s)) = active_whispers s \<and>
      whispers (snd (close_whisper e i s)) = whispers s \<and>
      fst (close_whisper e i s) \<noteq> Inr Closed) \<and>
   (raises e DbInsert \<noteq> None \<and> (\<forall>k. k \<noteq> DbInsert \<longrightarrow> raises e k = None) \<and>
    guild i = Some g \<and> lookup s g (uid (user i)) = None \<and>
    config_get (cfg_whisper_enabled s) g True \<longrightarrow>
      fst (create_whisper e i s) = Inr CreateFailed) \<and>
   (raises e DbUpdate \<noteq> None \<and> (\<forall>k. k \<noteq> DbUpdate \<longrightarrow> raises e k = None) \<and>
    guild i = Some g \<and> channel i = Thread t \<and>
    select_open_thread (whispers s) g t = Some w \<and> user i = Member n p \<and>
    (administrator p \<or> n = user_id w) \<longrightarrow>
      fst (close_whisper e i s) = Inr CloseError)"
proof -
  have 1: "raises e DbInsert \<noteq> None \<longrightarrow>
      active_whispers (snd (create_whisper e i s)) = active_whispers s \<and>
      whispers (snd (create_whisper e i s)) = whispers s \<and>
      (\<forall>t. fst (create_whisper e i s) \<noteq> Inr (Created t))"
  proof
    assume r: "raises e DbInsert \<noteq> None"
    with create_whisper_store [of e i s]
    have "whispers (snd (create_whisper e i s)) = whispers s \<and>
          active_whispers (snd (create_whisper e i s)) = active_whispers s"
      by (elim disjE exE conjE) simp_all
    moreover have "\<forall>t. fst (create_whisper e i s) \<noteq> Inr (Created t)"
    proof (intro allI notI)
      fix t'
      assume "fst (create_whisper e i s) = Inr (Created t')"
      then have "raises e DbInsert = None" by (rule create_whisper_Created)
      with r show False by simp
    qed
    ultimately show "active_whispers (snd (create_whisper e i s)) = active_whispers s \<and>
      whispers (snd (create_whisper e i s)) = whispers s \<and>
      (\<forall>t. fst (create_whisper e i s) \<noteq> Inr (Created t))"
      by simp
  qed
  have 2: "raises e DbUpdate \<noteq> None \<longrightarrow>
      active_whispers (snd (close_whisper e i s)) = active_whispers s \<and>
      whispers (snd (close_whisper e i s)) = whispers s \<and>
      fst (close_whisper e i s) \<noteq> Inr Closed"
  proof
    assume "raises e DbUpdate \<noteq> None"
    with close_whisper_store [of e i s]
    show "active_whispers (snd (close_whisper e i s)) = active_whispers s \<and>
      whispers (snd (close_whisper e i s)) = whispers s \<and>
      fst (close_whisper e i s) \<noteq> Inr Closed"
      by (elim disjE exE conjE) simp_all
  qed
  have 3: "raises e DbInsert \<noteq> None \<and> (\<forall>k. k \<noteq> DbInsert \<longrightarrow> raises e k = None) \<and>
    guild i = Some g \<and> lookup s g (uid (user i)) = None \<and>
    config_get (cfg_whisper_enabled s) g True \<longrightarrow>
      fst (create_whisper e i s) = Inr CreateFailed"
    using create_whisper_insert_fails [of i g s e] by simp
  have 4: "raises e DbUpdate \<noteq> None \<and> (\<forall>k. k \<noteq> DbUpdate \<longrightarrow> raises e k = None) \<and>
    guild i = Some g \<and> channel i = Thread t \<and>
    select_open_thread (whispers s) g t = Some w \<and> user i = Member n p \<and>
    (administrator p \<or> n = user_id w) \<longrightarrow>
      fst (close_whisper e i s) = Inr CloseError"
    using close_whisper_update_fails [of i g t s w n p e] by simp
  note 5 = create_whisper_effects [of e i s, THEN conjunct1]
  note 6 = create_whisper_effects [of e i s, THEN conjunct2]
  note 7 = close_whisper_effects [of e i s, THEN conjunct1]
  note 8 = close_whisper_effects [of e i s, THEN conjunct2]
  from 5 6 7 8 1 2 3 4 show ?thesis
    by (intro conjI) assumption+
qed

theorem store_write_precedes_registry_witness:
  "raises (failing DbInsert OtherError 5 100 50) DbInsert \<noteq> None \<and>
   fst (create_whisper (failing DbInsert OtherError 5 100 50) alice (startup [])) =
     Inr CreateFailed \<and>
   active_whispers (snd (create_whisper (failing DbInsert OtherError 5 100 50) alice (startup []))) =
     active_whispers (startup []) \<and>
   whispers (snd (create_whisper (failing DbInsert OtherError 5 100 50) alice (startup []))) =
     whispers (startup []) \<and>
   raises (failing DbUpdate OtherError 9 0 0) DbUpdate \<noteq> None \<and>
   fst (close_whisper (failing DbUpdate OtherError 9 0 0) alice_in_thread opened) =
     Inr CloseError \<and>
   active_whispers (snd (close_whisper (failing DbUpdate OtherError 9 0 0) alice_in_thread opened)) =
     active_whispers opened \<and>
   whispers (snd (close_whisper (failing DbUpdate OtherError 9 0 0) alice_in_thread opened)) =
     whispers opened \<and>
   store_first None (new_effects (startup [])
     (snd (create_whisper (calm 5 100 50) alice (startup [])))) \<and>
   store_first None (new_effects opened
     (snd (close_whisper (calm 9 0 0) alice_in_thread opened)))"
proof -
  have a: "raises (failing DbInsert OtherError 5 100 50) DbInsert \<noteq> None"
    "\<forall>k. k \<noteq> DbInsert \<longrightarrow> raises (failing DbInsert OtherError 5 100 50) k = None"
    "guild alice = Some 1" "lookup (startup []) 1 (uid (user alice)) = None"
    "config_get (cfg_whisper_enabled (startup [])) 1 True"
    by (simp_all add: failing_def alice_def lookup_def startup_def config_get_def)
  have b: "raises (failing DbUpdate OtherError 9 0 0) DbUpdate \<noteq> None"
    "\<forall>k. k \<noteq> DbUpdate \<longrightarrow> raises (failing DbUpdate OtherError 9 0 0) k = None"
    "guild alice_in_thread = Some 1" "channel alice_in_thread = Thread 100"
    "select_open_thread (whispers opened) 1 100 = Some open_row"
    "user alice_in_thread = Member 7 no_perms"
    "administrator no_perms \<or> 7 = user_id open_row"
    by (simp_all add: failing_def alice_in_thread_def select_open_thread_def opened_def
        open_row_def)
  from store_write_precedes_registry
         [of "failing DbInsert OtherError 5 100 50" alice "startup []" 1 100 open_row 7 no_perms]
       a
  have 1: "fst (create_whisper (failing DbInsert OtherError 5 100 50) alice (startup [])) =
     Inr CreateFailed \<and>
   active_whispers (snd (create_whisper (failing DbInsert OtherError 5 100 50) alice (startup []))) =
     active_whispers (startup []) \<and>
   whispers (snd (create_whisper (failing DbInsert OtherError 5 100 50) alice (startup []))) =
     whispers (startup [])"
    by simp
  from store_write_precedes_registry
         [of "failing DbUpdate OtherError 9 0 0" alice_in_thread opened 1 100 open_row 7 no_perms]
       b
  have 2: "fst (close_whisper (failing DbUpdate OtherError 9 0 0) alice_in_thread opened) =
     Inr CloseError \<and>
   active_whispers (snd (close_whisper (failing DbUpdate OtherError 9 0 0) alice_in_thread opened)) =
     active_whispers opened \<and>
   whispers (snd (close_whisper (failing DbUpdate OtherError 9 0 0) alice_in_thread opened)) =
     whispers opened"
    by (simp add: no_perms_def open_row_def)
  from store_write_precedes_registry [of "calm 5 100 50" alice "startup []"]
  have 3: "store_first None (new_effects (startup [])
     (snd (create_whisper (calm 5 100 50) alice (startup []))))"
    by simp
  from store_write_precedes_registry [of "calm 9 0 0" alice_in_thread opened]
  have 4: "store_first None (new_effects opened
     (snd (close_whisper (calm 9 0 0) alice_in_thread opened)))"
    by simp
  from a(1) b(1) 1 2 3 4 show ?thesis by simp
qed

lemma dict_of_fold:
  "fold (\<lambda>w d. d(user_id w \<mapsto> thread_id w)) ws d0 u =
     (case filter (\<lambda>w. user_id w = u) ws of
        [] \<Rightarrow> d0 u
      | r # rs \<Rightarrow> Some (thread_id (last (r # rs))))"
proof (induction ws arbitrary: d0)
  case Nil
  then show ?case by simp
next
  case (Cons w ws)
  have "fold (\<lambda>w d. d(user_id w \<mapsto> thread_id w)) (w # ws) d0 u =
        (case filter (\<lambda>w. user_id w = u) ws of
           [] \<Rightarrow> (d0(user_id w \<mapsto> thread_id w)) u
         | r # rs \<Rightarrow> Some (thread_id (last (r # rs))))"
    using Cons.IH [of "d0(user_id w \<mapsto> thread_id w)"]
    by (simp only: fold_simps comp_apply)
  also have "\<dots> =
        (case filter (\<lambda>w. user_id w = u) (w # ws) of
           [] \<Rightarrow> d0 u
         | r # rs \<Rightarrow> Some (thread_id (last (r # rs))))"
    by (cases "user_id w = u"; cases "filter (\<lambda>w. user_id w = u) ws") simp_all
  finally show ?case .
qed

lemma filter_user_open_guild:
  "filter (\<lambda>w. user_id w = u) (select_open_guild rows g) =
   filter (\<lambda>r. guild_id r = g \<and> user_id r = u \<and> is_open r) rows"
  by (induction rows) (simp_all add: select_open_guild_def)

lemma dict_of_select:
  "dict_of (select_open_guild rows g) u = last_open_thread rows g u"
  by (simp add: dict_of_def dict_of_fold filter_user_open_guild last_open_thread_def)

lemma last_open_thread_None:
  "(last_open_thread rows g u = None) = (\<not> has_open rows g u)"
proof -
  have "has_open rows g u =
        (filter (\<lambda>r. guild_id r = g \<and> user_id r = u \<and> is_open r) rows \<noteq> [])"
    unfolding has_open_def filter_empty_conv by blast
  then show ?thesis
    by (cases "filter (\<lambda>r. guild_id r = g \<and> user_id r = u \<and> is_open r) rows")
       (simp_all add: last_open_thread_def)
qed

lemma last_open_thread_Some:
  assumes "last_open_thread rows g u = Some t"
  shows "\<exists>r \<in> set rows. guild_id r = g \<and> user_id r = u \<and> is_open r \<and> thread_id r = t"
proof -
  define xs where "xs = filter (\<lambda>r. guild_id r = g \<and> user_id r = u \<and> is_open r) rows"
  from assms have ne: "xs \<noteq> []" and t: "t = thread_id (last xs)"
    by (auto simp: last_open_thread_def xs_def split: list.splits)
  from ne have "last xs \<in> set xs" by simp
  then have "last xs \<in> set rows \<and> guild_id (last xs) = g \<and> user_id (last xs) = u \<and>
             is_open (last xs)"
    unfolding xs_def by simp
  with t show ?thesis by blast
qed

lemma select_open_guild_empty:
  "select_open_guild rows g = [] \<Longrightarrow> last_open_thread rows g u = None"
proof -
  assume "select_open_guild rows g = []"
  then have "filter (\<lambda>w. user_id w = u) (select_open_guild rows g) = []" by simp
  then show ?thesis
    by (simp add: filter_user_open_guild last_open_thread_def)
qed

lemma load_guild_whispers: "whispers (load_guild e g s) = whispers s"
  by (simp add: load_guild_def Let_def split: option.splits)

lemma load_guild_lookup:
  "lookup (load_guild e g s) g' u =
     (if g' = g \<and> raises e (DbFetchAll g) = None \<and> select_open_guild (whispers s) g \<noteq> []
      then last_open_thread (whispers s) g u else lookup s g' u)"
  by (cases "raises e (DbFetchAll g)")
     (simp_all add: load_guild_def lookup_def Let_def dict_of_select)

lemma cog_load_whispers: "whispers (cog_load e gs s) = whispers s"
  by (induction gs arbitrary: s) (simp_all add: load_guild_whispers)

lemma cog_load_lookup_aux:
  "lookup (cog_load e gs s) g u =
     (if g \<in> set gs \<and> raises e (DbFetchAll g) = None \<and> select_open_guild (whispers s) g \<noteq> []
      then last_open_thread (whispers s) g u else lookup s g u)"
proof (induction gs arbitrary: s)
  case Nil
  then show ?case by simp
next
  case (Cons a gs)
  show ?case
    by (cases "a = g"; cases "raises e (DbFetchAll a)")
       (simp_all add: Cons.IH load_guild_whispers load_guild_lookup)
qed









section \<open>The registry mirrors the store\<close>




section \<open>Rebuilding the registry\<close>

text \<open>
  C3 (as amended). The rebuild repopulates the cache from the store but clears nothing.
  For a guild of the bot's guild list whose read does not raise and that has at least
  one open row, the guild's entries are replaced: a lookup gives the thread of the open
  row of the pair (the last one in the store), or nothing when the pair has none. Every
  other pair keeps what the cache held before. So from the empty cache of process
  start, for every guild that is read without failure, a lookup gives exactly the thread
  of the pair's open row, or nothing when there is none. The store is not changed.
\<close>

theorem cog_load_lookup:
  "lookup (cog_load e gs s) g u =
     (if g \<in> set gs \<and> raises e (DbFetchAll g) = None \<and> select_open_guild (whispers s) g \<noteq> []
      then last_open_thread (whispers s) g u else lookup s g u) \<and>
   (active_whispers s = Map.empty \<and> g \<in> set gs \<and> raises e (DbFetchAll g) = None \<longrightarrow>
      lookup (cog_load e gs s) g u = last_open_thread (whispers s) g u) \<and>
   (last_open_thread (whispers s) g u = None) = (\<not> has_open (whispers s) g u) \<and>
   (\<forall>t. last_open_thread (whispers s) g u = Some t \<longrightarrow>
      (\<exists>r \<in> set (whispers s). guild_id r = g \<and> user_id r = u \<and> is_open r \<and> thread_id r = t)) \<and>
   whispers (cog_load e gs s) = whispers s"
proof -
  note 1 = cog_load_lookup_aux [of e gs s g u]
  have 2: "active_whispers s = Map.empty \<and> g \<in> set gs \<and> raises e (DbFetchAll g) = None \<longrightarrow>
      lookup (cog_load e gs s) g u = last_open_thread (whispers s) g u"
  proof
    assume a: "active_whispers s = Map.empty \<and> g \<in> set gs \<and> raises e (DbFetchAll g) = None"
    then have l: "lookup s g u = None" by (simp add: lookup_def)
    show "lookup (cog_load e gs s) g u = last_open_thread (whispers s) g u"
    proof (cases "select_open_guild (whispers s) g = []")
      case True
      with a l 1 show ?thesis by (simp add: select_open_guild_empty)
    next
      case False
      with a 1 show ?thesis by simp
    qed
  qed
  note 3 = last_open_thread_None [of "whispers s" g u]
  have 4: "\<forall>t. last_open_thread (whispers s) g u = Some t \<longrightarrow>
      (\<exists>r \<in> set (whispers s). guild_id r = g \<and> user_id r = u \<and> is_open r \<and> thread_id r = t)"
    using last_open_thread_Some [of "whispers s" g u] by blast
  note 5 = cog_load_whispers [of e gs s]
  from 1 2 3 4 5 show ?thesis
    by (intro conjI) assumption+
qed

theorem cog_load_lookup_witness:
  "active_whispers (startup [open_row]) = Map.empty \<and> 1 \<in> set [1::int] \<and>
   raises (calm 0 0 0) (DbFetchAll 1) = None \<and>
   lookup (cog_load (calm 0 0 0) [1] (startup [open_row])) 1 7 = Some 100 \<and>
   lookup (cog_load (calm 0 0 0) [1] (startup [open_row])) 1 8 = None"
proof -
  have a: "active_whispers (startup [open_row]) = Map.empty \<and> 1 \<in> set [1::int] \<and>
           raises (calm 0 0 0) (DbFetchAll 1) = None"
    by (simp add: startup_def calm_def)
  have b: "last_open_thread (whispers (startup [open_row])) 1 7 = Some 100"
    "last_open_thread (whispers (startup [open_row])) 1 8 = None"
    by (simp_all add: last_open_thread_def startup_def open_row_def)
  note 1 = mp [OF cog_load_lookup [of "calm 0 0 0" "[1]" "startup [open_row]" 1 7,
                     THEN conjunct2, THEN conjunct1] a]
  note 2 = mp [OF cog_load_lookup [of "calm 0 0 0" "[1]" "startup [open_row]" 1 8,
                     THEN conjunct2, THEN conjunct1] a]
  from a b show ?thesis
    unfolding 1 2 by simp
qed

text \<open>
  C3 as stated fails. A cache entry from before the rebuild stays when the store has no
  open row for its guild: the entry of user 7 for thread 100 is still looked up after a
  rebuild over the empty store. And a guild whose read raises is skipped, as is a guild
  that is not in the bot's guild list: from the empty cache, the open row of user 7 is
  in the store and the lookup gives nothing.
\<close>

theorem cog_load_stale_counterexample:
  "lookup stale 1 7 = Some 100 \<and> whispers stale = [] \<and>
   lookup (cog_load (calm 0 0 0) [1] stale) 1 7 = Some 100 \<and>
   whispers (cog_load (calm 0 0 0) [1] stale) = [] \<and>
   whispers (cog_load (failing (DbFetchAll 1) OtherError 0 0 0) [1] (startup [open_row])) =
     [open_row] \<and>
   lookup (cog_load (failing (DbFetchAll 1) OtherError 0 0 0) [1] (startup [open_row])) 1 7 =
     None \<and>
   whispers (cog_load (calm 0 0 0) [] (startup [open_row])) = [open_row] \<and>
   lookup (cog_load (calm 0 0 0) [] (startup [open_row])) 1 7 = None"
  by (simp add: load_guild_def select_open_guild_def lookup_def stale_def startup_def
      calm_def failing_def)

lemma attempt_Inl:
  "attempt e k rest = Inl x \<Longrightarrow> raises e k = Some x \<or> rest = Inl x"
  by (simp add: attempt_def split: option.splits)

lemma answered_Inl:
  assumes "answered e c body = Inl x"
  shows "\<exists>r. raises e (Send r) = Some x"
proof (cases body)
  case (Inl y)
  then have "answered e c body = send e (ForbiddenReply c) \<or>
             answered e c body = send e UnexpectedError"
    by (cases y) (simp_all add: answered_def)
  with assms show ?thesis using send_Inl by metis
next
  case (Inr r)
  with assms show ?thesis by (simp add: answered_def)
qed

lemma answered_any_Inl:
  assumes "answered_any e r body = Inl x"
  shows "\<exists>r. raises e (Send r) = Some x"
proof (cases body)
  case (Inl y)
  with assms have "send e r = Inl x" by (simp add: answered_any_def)
  then show ?thesis by (rule send_Inl)
next
  case (Inr r')
  with assms show ?thesis by (simp add: answered_any_def)
qed

lemma moderated_Inl:
  assumes "moderated e i s rest = Inl x"
  shows "raises e ModConfigGet = Some x \<or> (\<exists>r. raises e (Send r) = Some x) \<or>
         ((\<exists>g. guild i = Some g) \<and> rest = Inl x)"
proof (cases "check_mod_permissions e i s")
  case (Inl z)
  with assms have "z = x" by (simp add: moderated_def)
  with Inl show ?thesis by (simp add: check_mod_permissions_Inl)
next
  case (Inr b)
  show ?thesis
  proof (cases b)
    case False
    with Inr assms have "send e ModNoPermission = Inl x" by (simp add: moderated_def)
    then show ?thesis using send_Inl by blast
  next
    case True
    with Inr have c: "check_mod_permissions e i s = Inr True" by simp
    then have "\<exists>g. guild i = Some g" by (rule check_mod_permissions_guild)
    moreover from c assms have "rest = Inl x" by (simp add: moderated_def)
    ultimately show ?thesis by simp
  qed
qed

text \<open>What the rest of a moderation command lets out, once the guild is known.\<close>

lemma sends_only:
  "send e r = Inl x \<Longrightarrow> (\<exists>r. raises e (Send r) = Some x) \<or> raises e ModConfigGet = Some x"
  using send_Inl by blast

lemma ban_Inl:
  assumes "ban e i a s = Inl x"
  shows "(\<exists>r. raises e (Send r) = Some x) \<or> raises e ModConfigGet = Some x"
proof -
  from moderated_Inl [OF assms [unfolded ban_def]]
  show ?thesis
    by (auto dest: send_Inl answered_Inl split: if_splits)
qed

lemma unban_Inl:
  assumes "unban e i a s = Inl x"
  shows "(\<exists>r. raises e (Send r) = Some x) \<or> raises e ModConfigGet = Some x"
proof -
  from moderated_Inl [OF assms [unfolded unban_def]]
  show ?thesis
    by (auto dest: send_Inl answered_Inl split: if_splits)
qed

lemma mute_Inl:
  assumes "mute e i a s = Inl x"
  shows "(\<exists>r. raises e (Send r) = Some x) \<or> raises e ModConfigGet = Some x"
proof -
  from moderated_Inl [OF assms [unfolded mute_def]]
  show ?thesis
    by (auto dest: send_Inl answered_Inl split: if_splits)
qed

lemma unmute_Inl:
  assumes "unmute e i a s = Inl x"
  shows "(\<exists>r. raises e (Send r) = Some x) \<or> raises e ModConfigGet = Some x"
proof -
  from moderated_Inl [OF assms [unfolded unmute_def]]
  show ?thesis
    by (auto dest: send_Inl answered_Inl split: if_splits)
qed

lemma warn_Inl:
  assumes "warn e i a s = Inl x"
  shows "(\<exists>r. raises e (Send r) = Some x) \<or> raises e ModConfigGet = Some x"
proof -
  from moderated_Inl [OF assms [unfolded warn_def]]
  show ?thesis
    by (auto dest: answered_any_Inl)
qed

lemma warnings_Inl:
  assumes "warnings e i a s = Inl x"
  shows "(\<exists>r. raises e (Send r) = Some x) \<or> raises e ModConfigGet = Some x"
proof -
  from moderated_Inl [OF assms [unfolded warnings_def]]
  show ?thesis
    by (auto dest: answered_any_Inl)
qed

lemma modlogs_Inl:
  assumes "modlogs e i a s = Inl x"
  shows "(\<exists>r. raises e (Send r) = Some x) \<or> raises e ModConfigGet = Some x"
proof -
  from moderated_Inl [OF assms [unfolded modlogs_def]]
  show ?thesis
    by (auto dest: answered_any_Inl)
qed

lemma purge_Inl:
  assumes "purge e i a s = Inl x"
  shows "(\<exists>r. raises e (Send r) = Some x) \<or> raises e ModConfigGet = Some x"
proof -
  from moderated_Inl [OF assms [unfolded purge_def]]
  show ?thesis
    by (auto dest: send_Inl answered_Inl split: if_splits channel.splits)
qed

lemma lock_Inl:
  assumes "lock e i a s = Inl x"
  shows "(\<exists>r. raises e (Send r) = Some x) \<or> raises e ModConfigGet = Some x"
proof -
  from moderated_Inl [OF assms [unfolded lock_def]]
  show ?thesis
    by (auto dest: send_Inl answered_Inl split: if_splits channel.splits)
qed

lemma unlock_Inl:
  assumes "unlock e i a s = Inl x"
  shows "(\<exists>r. raises e (Send r) = Some x) \<or> raises e ModConfigGet = Some x"
proof -
  from moderated_Inl [OF assms [unfolded unlock_def]]
  show ?thesis
    by (auto dest: send_Inl answered_Inl split: if_splits channel.splits)
qed

lemma setup_whispers_Inl:
  assumes "fst (setup_whispers e i en ch s) = Inl x"
  shows "\<exists>r. raises e (Send r) = Some x"
proof (cases "guild i")
  case None
  with assms have "send e ServerOnly = Inl x"
    by (simp add: setup_whispers_def)
  then show ?thesis by (rule send_Inl)
next
  case (Some g)
  obtain y s1 where t: "setup_whispers_try e g en ch s = (y, s1)"
    by (cases "setup_whispers_try e g en ch s")
  show ?thesis
  proof (cases y)
    case (Inl z)
    with assms Some t have "send e SettingsError = Inl x"
      by (simp add: setup_whispers_def)
    then show ?thesis by (rule send_Inl)
  next
    case (Inr r)
    with assms Some t show ?thesis
      by (simp add: setup_whispers_def)
  qed
qed

lemma list_whispers_Inl:
  assumes "list_whispers e i s = Inl x"
  shows "\<exists>r. raises e (Send r) = Some x"
proof (cases "guild i")
  case None
  with assms have "send e ServerOnly = Inl x"
    by (simp add: list_whispers_def)
  then show ?thesis by (rule send_Inl)
next
  case (Some g)
  with assms show ?thesis
    by (auto simp: list_whispers_def dest: answered_any_Inl)
qed

lemma logs_Inl:
  assumes "logs e i sub = Inl x"
  shows "(\<exists>r. raises e (Send r) = Some x) \<or> has_permissions_administrator i = Some x"
proof (cases "has_permissions_administrator i")
  case None
  with assms have "send e LogsHelp = Inl x"
    by (simp add: logs_def split: if_splits sum.splits)
  then show ?thesis using send_Inl by blast
next
  case (Some y)
  with assms show ?thesis by (simp add: logs_def)
qed

lemma set_log_channel_Inl:
  assumes "set_log_channel e i cs ce = Inl x"
  shows "(\<exists>r. raises e (Send r) = Some x) \<or> has_permissions_administrator i = Some x"
proof (cases "has_permissions_administrator i")
  case None
  with assms show ?thesis
    by (auto simp: set_log_channel_def dest: answered_any_Inl)
next
  case (Some y)
  with assms show ?thesis by (simp add: set_log_channel_def)
qed

section \<open>Errors at the handler boundary\<close>

text \<open>
  C9 (as amended). In every command handler of the three cogs, an error that a store,
  configuration or platform call raises inside the handler's \<^verbatim>\<open>try\<close> block is caught
  there and answered with a reply. An exception leaves a handler only in three ways: the
  sending of a reply raises (the error reply of the handler included; the base logging
  command has no \<^verbatim>\<open>try\<close> block and its only call is such a send); or, in a moderation
  command, the configuration read of the permission check raises, which runs before the
  \<^verbatim>\<open>try\<close> block; or, for the two logging commands, the \<^verbatim>\<open>has_permissions\<close> check in front
  of the command refuses the invoker.
\<close>

theorem handlers_answer_errors:
  "(fst (create_whisper e i s) = Inl x \<longrightarrow> (\<exists>r. raises e (Send r) = Some x)) \<and>
   (fst (close_whisper e i s) = Inl x \<longrightarrow> (\<exists>r. raises e (Send r) = Some x)) \<and>
   (fst (setup_whispers e i en ch s) = Inl x \<longrightarrow> (\<exists>r. raises e (Send r) = Some x)) \<and>
   (list_whispers e i s = Inl x \<longrightarrow> (\<exists>r. raises e (Send r) = Some x)) \<and>
   (fst (kick e i k s) = Inl x \<longrightarrow>
      (\<exists>r. raises e (Send r) = Some x) \<or> raises e ModConfigGet = Some x) \<and>
   (ban e i a s = Inl x \<longrightarrow>
      (\<exists>r. raises e (Send r) = Some x) \<or> raises e ModConfigGet = Some x) \<and>
   (unban e i a s = Inl x \<longrightarrow>
      (\<exists>r. raises e (Send r) = Some x) \<or> raises e ModConfigGet = Some x) \<and>
   (mute e i a s = Inl x \<longrightarrow>
      (\<exists>r. raises e (Send r) = Some x) \<or> raises e ModConfigGet = Some x) \<and>
   (unmute e i a s = Inl x \<longrightarrow>
      (\<exists>r. raises e (Send r) = Some x) \<or> raises e ModConfigGet = Some x) \<and>
   (warn e i a s = Inl x \<longrightarrow>
      (\<exists>r. raises e (Send r) = Some x) \<or> raises e ModConfigGet = Some x) \<and>
   (warnings e i a s = Inl x \<longrightarrow>
      (\<exists>r. raises e (Send r) = Some x) \<or> raises e ModConfigGet = Some x) \<and>
   (modlogs e i a s = Inl x \<longrightarrow>
      (\<exists>r. raises e (Send r) = Some x) \<or> raises e ModConfigGet = Some x) \<and>
   (purge e i a s = Inl x \<longrightarrow>
      (\<exists>r. raises e (Send r) = Some x) \<or> raises e ModConfigGet = Some x) \<and>
   (lock e i a s = Inl x \<longrightarrow>
      (\<exists>r. raises e (Send r) = Some x) \<or> raises e ModConfigGet = Some x) \<and>
   (unlock e i a s = Inl x \<longrightarrow>
      (\<exists>r. raises e (Send r) = Some x) \<or> raises e ModConfigGet = Some x) \<and>
   (logs e i sub = Inl x \<longrightarrow>
      (\<exists>r. raises e (Send r) = Some x) \<or> has_permissions_administrator i = Some x) \<and>
   (set_log_channel e i cs ce = Inl x \<longrightarrow>
      (\<exists>r. raises e (Send r) = Some x) \<or> has_permissions_administrator i = Some x)"
  by (intro conjI impI)
     (erule create_whisper_Inl close_whisper_Inl setup_whispers_Inl list_whispers_Inl kick_Inl
        ban_Inl unban_Inl mute_Inl unmute_Inl warn_Inl warnings_Inl modlogs_Inl purge_Inl
        lock_Inl unlock_Inl logs_Inl set_log_channel_Inl)+

theorem handlers_answer_errors_witness:
  "fst (create_whisper (failing (Send ServerOnly) HTTPException 0 0 0) outsider (startup [])) =
     Inl HTTPException \<and>
   fst (close_whisper (failing (Send ThreadOnly) HTTPException 0 0 0) outsider (startup [])) =
     Inl HTTPException \<and>
   fst (kick (failing ModConfigGet OtherError 0 0 0) moderator kick_alice (startup [])) =
     Inl OtherError \<and>
   ban (failing ModConfigGet OtherError 0 0 0) moderator some_args (startup []) =
     Inl OtherError \<and>
   logs (calm 0 0 0) bob False = Inl MissingPermissions \<and>
   (\<exists>r. raises (failing (Send ServerOnly) HTTPException 0 0 0) (Send r) = Some HTTPException) \<and>
   (\<exists>r. raises (failing (Send ThreadOnly) HTTPException 0 0 0) (Send r) = Some HTTPException) \<and>
   raises (failing ModConfigGet OtherError 0 0 0) ModConfigGet = Some OtherError \<and>
   has_permissions_administrator bob = Some MissingPermissions"
proof -
  have a: "fst (create_whisper (failing (Send ServerOnly) HTTPException 0 0 0) outsider (startup [])) =
     Inl HTTPException"
    by (simp add: create_whisper_def send_def failing_def outsider_def)
  have b: "fst (close_whisper (failing (Send ThreadOnly) HTTPException 0 0 0) outsider (startup [])) =
     Inl HTTPException"
    by (simp add: close_whisper_def send_def failing_def outsider_def)
  have c: "fst (kick (failing ModConfigGet OtherError 0 0 0) moderator kick_alice (startup [])) =
     Inl OtherError"
    by (simp add: kick_def check_mod_permissions_def failing_def moderator_def kick_perms_def)
  have d: "ban (failing ModConfigGet OtherError 0 0 0) moderator some_args (startup []) =
     Inl OtherError"
    by (simp add: ban_def moderated_def check_mod_permissions_def failing_def moderator_def
        kick_perms_def)
  have f: "logs (calm 0 0 0) bob False = Inl MissingPermissions"
    by (simp add: logs_def has_permissions_administrator_def bob_def no_perms_def)
  have n: "\<forall>r. raises (failing ModConfigGet OtherError 0 0 0) (Send r) = None"
    "\<forall>r. raises (calm 0 0 0) (Send r) = None"
    by (simp_all add: failing_def calm_def)
  note t1 = handlers_answer_errors
    [where e = "failing (Send ServerOnly) HTTPException 0 0 0" and i = outsider
       and s = "startup []" and x = HTTPException, THEN conjunct1, THEN mp, OF a]
  note t2 = handlers_answer_errors
    [where e = "failing (Send ThreadOnly) HTTPException 0 0 0" and i = outsider
       and s = "startup []" and x = HTTPException, THEN conjunct2, THEN conjunct1, THEN mp, OF b]
  note t3 = handlers_answer_errors
    [where e = "failing ModConfigGet OtherError 0 0 0" and i = moderator
       and s = "startup []" and x = OtherError and k = kick_alice,
     THEN conjunct2, THEN conjunct2, THEN conjunct2, THEN conjunct2, THEN conjunct1, THEN mp,
     OF c]
  note t4 = handlers_answer_errors
    [where e = "calm 0 0 0" and i = bob and x = MissingPermissions and sub = False,
     THEN conjunct2, THEN conjunct2, THEN conjunct2, THEN conjunct2, THEN conjunct2,
     THEN conjunct2, THEN conjunct2, THEN conjunct2, THEN conjunct2, THEN conjunct2,
     THEN conjunct2, THEN conjunct2, THEN conjunct2, THEN conjunct2, THEN conjunct2,
     THEN conjunct1, THEN mp, OF f]
  from t3 n(1) have 3: "raises (failing ModConfigGet OtherError 0 0 0) ModConfigGet = Some OtherError"
    by simp
  from t4 n(2) have 4: "has_permissions_administrator bob = Some MissingPermissions"
    by simp
  from a b c d f t1 t2 3 4 show ?thesis
    by (intro conjI) assumption+
qed

text \<open>
  C9 as stated fails for the kick handler: a moderator with the kick permission only
  invokes the command while the configuration read raises. The permission check is
  called before the \<^verbatim>\<open>try\<close> block, so the exception leaves the handler and no reply
  is sent. It fails as well when the sending of a reply raises (the open command outside
  a guild, whose refusal is sent before the \<^verbatim>\<open>try\<close> block), and for the base logging
  command invoked by a member who is not an administrator, where the check in front of
  the command raises.
\<close>

theorem kick_config_failure_counterexample:
  "raises (failing ModConfigGet OtherError 0 0 0) ModConfigGet = Some OtherError \<and>
   fst (kick (failing ModConfigGet OtherError 0 0 0) moderator kick_alice (startup [])) =
     Inl OtherError \<and>
   snd (kick (failing ModConfigGet OtherError 0 0 0) moderator kick_alice (startup [])) =
     startup [] \<and>
   fst (create_whisper (failing (Send ServerOnly) HTTPException 0 0 0) outsider (startup [])) =
     Inl HTTPException \<and>
   has_permissions_administrator bob = Some MissingPermissions \<and>
   logs (calm 0 0 0) bob False = Inl MissingPermissions"
  by (simp add: kick_def check_mod_permissions_def failing_def moderator_def kick_perms_def
      create_whisper_def send_def outsider_def logs_def has_permissions_administrator_def
      bob_def no_perms_def)






section \<open>Opening a whisper\<close>




text \<open>
  C5 (as amended). A user with no open row in the store, in a state where the registry
  agrees with the store on that user (so it has no entry for the user either), opens a
  whisper in a server where the feature is enabled, and no call raises: the reply names
  the new thread, the store gains exactly the row (guild, user, new thread, creation
  time, no closing time, open) at its end, and a lookup for the pair gives the new
  thread.
\<close>

theorem create_whisper_success:
  assumes "guild i = Some g" and "\<not> has_open (whispers s) g (uid (user i))"
    and "(lookup s g (uid (user i)) \<noteq> None) = has_open (whispers s) g (uid (user i))"
    and "config_get (cfg_whisper_enabled s) g True" and "\<forall>k. raises e k = None"
  shows "fst (create_whisper e i s) = Inr (Created (new_thread e)) \<and>
         whispers (snd (create_whisper e i s)) =
           whispers s @ [\<lparr>guild_id = g, user_id = uid (user i), thread_id = new_thread e,
                          created_at = now e, closed_at = None, is_open = True\<rparr>] \<and>
         lookup (snd (create_whisper e i s)) g (uid (user i)) = Some (new_thread e)"
proof -
  from assms(2,3) have "lookup s g (uid (user i)) = None" by simp
  with assms(1) show ?thesis
    using assms(4,5) by (rule create_whisper_no_entry)
qed

theorem create_whisper_success_witness:
  "guild alice = Some 1 \<and> \<not> has_open (whispers (startup [])) 1 (uid (user alice)) \<and>
   (lookup (startup []) 1 (uid (user alice)) \<noteq> None) =
     has_open (whispers (startup [])) 1 (uid (user alice)) \<and>
   config_get (cfg_whisper_enabled (startup [])) 1 True \<and>
   (\<forall>k. raises (calm 5 100 50) k = None) \<and>
   fst (create_whisper (calm 5 100 50) alice (startup [])) = Inr (Created 100) \<and>
   whispers (snd (create_whisper (calm 5 100 50) alice (startup []))) = [open_row] \<and>
   lookup (snd (create_whisper (calm 5 100 50) alice (startup []))) 1 7 = Some 100"
proof -
  have g: "guild alice = Some 1"
    by (simp add: alice_def)
  have h: "\<not> has_open (whispers (startup [])) 1 (uid (user alice))"
    by (simp add: has_open_def startup_def)
  have l: "(lookup (startup []) 1 (uid (user alice)) \<noteq> None) =
     has_open (whispers (startup [])) 1 (uid (user alice))"
    by (simp add: lookup_def has_open_def startup_def)
  have c: "config_get (cfg_whisper_enabled (startup [])) 1 True"
    by (simp add: config_get_def startup_def)
  have r: "\<forall>k. raises (calm 5 100 50) k = None"
    by (simp add: calm_def)
  from create_whisper_success [OF g h l c r] g h l c r
  show ?thesis by (simp add: calm_def alice_def startup_def open_row_def)
qed

text \<open>
  C5 as stated fails where the registry holds an entry that the store does not back:
  the store is empty, so user 7 has no open row, the feature is enabled and no call
  raises, yet the open command answers with the registry's thread 100 and inserts
  nothing.
\<close>

theorem create_whisper_stale_counterexample:
  "guild alice = Some 1 \<and> \<not> has_open (whispers stale) 1 (uid (user alice)) \<and>
   config_get (cfg_whisper_enabled stale) 1 True \<and>
   fst (create_whisper (calm 5 101 50) alice stale) = Inr (AlreadyActive 100) \<and>
   whispers (snd (create_whisper (calm 5 101 50) alice stale)) = []"
  by (simp add: create_whisper_def create_whisper_try_def send_def lookup_def has_open_def
      calm_def alice_def stale_def startup_def config_get_def)

end
